theory Spec2Isabelle
  imports Main "HOL-Library.Word"
begin

section \<open>Identifier tokens (src/src/DataItems.py, lines 11-99)\<close>

text \<open>
  The token classes form a small hierarchy: \<^verbatim>\<open>_RedundantStorageToken\<close> derives from
  \<^verbatim>\<open>_StorageToken\<close>, \<^verbatim>\<open>_FilenameToken\<close> derives from \<^verbatim>\<open>_UniqueToken\<close>, the others derive
  from \<^verbatim>\<open>_IdentifierToken\<close> directly. A token object is modelled by its class; the
  \<^verbatim>\<open>isinstance\<close> tests of the source are the predicates below.

  The \<^verbatim>\<open>items\<close> set that the storing tokens fill in \<^verbatim>\<open>verify_token\<close> is written and never
  read by any function of the sources, and is left out of the model.
\<close>

datatype IdentifierToken =
    StorageToken
  | RedundantStorageToken
  | UniqueToken
  | WildcardToken
  | FilenameToken
  | QuantityToken

fun isinstance_UniqueToken :: "IdentifierToken \<Rightarrow> bool" where
  "isinstance_UniqueToken UniqueToken = True"
| "isinstance_UniqueToken FilenameToken = True"
| "isinstance_UniqueToken _ = False"

fun isinstance_RedundantStorageToken :: "IdentifierToken \<Rightarrow> bool" where
  "isinstance_RedundantStorageToken RedundantStorageToken = True"
| "isinstance_RedundantStorageToken _ = False"

fun isinstance_StorageToken :: "IdentifierToken \<Rightarrow> bool" where
  "isinstance_StorageToken StorageToken = True"
| "isinstance_StorageToken RedundantStorageToken = True"
| "isinstance_StorageToken _ = False"

text \<open>
  Python values, as far as \<^verbatim>\<open>verify_token(token: Any)\<close> and the dataset argument of
  \<^verbatim>\<open>ImpliedList.expand\<close> tell them apart. A float is its 64-bit pattern; \<^verbatim>\<open>bool\<close> is a
  subclass of \<^verbatim>\<open>int\<close>.
\<close>

datatype pyvalue =
    PyInt int
  | PyBool bool
  | PyFloat "64 word"
  | PyStr string
  | PyBytes string
  | PyNone
  | PyList "pyvalue list"
  | PyDict "(pyvalue \<times> pyvalue) list"

fun isinstance_int_or_float :: "pyvalue \<Rightarrow> bool" where
  "isinstance_int_or_float (PyInt _) = True"
| "isinstance_int_or_float (PyBool _) = True"
| "isinstance_int_or_float (PyFloat _) = True"
| "isinstance_int_or_float _ = False"

text \<open>
  \<^verbatim>\<open>_QuantityToken.verify_token\<close>. The builtin \<^verbatim>\<open>float(token)\<close> on a string either
  returns or raises \<^verbatim>\<open>ValueError\<close>; which strings it accepts is the parameter
  \<open>float_parses\<close>.
\<close>

fun QuantityToken_verify_token :: "(string \<Rightarrow> bool) \<Rightarrow> pyvalue \<Rightarrow> bool" where
  "QuantityToken_verify_token float_parses (PyStr s) = float_parses s"
| "QuantityToken_verify_token float_parses v = isinstance_int_or_float v"

text \<open>
  \<^verbatim>\<open>verify_token\<close> of each class; \<open>path_exists\<close> stands for \<^verbatim>\<open>os.path.exists\<close>.
\<close>

fun Token_verify_token ::
  "(string \<Rightarrow> bool) \<Rightarrow> (pyvalue \<Rightarrow> bool) \<Rightarrow> IdentifierToken \<Rightarrow> pyvalue \<Rightarrow> bool" where
  "Token_verify_token float_parses path_exists StorageToken v = True"
| "Token_verify_token float_parses path_exists RedundantStorageToken v = True"
| "Token_verify_token float_parses path_exists UniqueToken v = True"
| "Token_verify_token float_parses path_exists WildcardToken v = True"
| "Token_verify_token float_parses path_exists FilenameToken v = (path_exists v \<and> True)"
| "Token_verify_token float_parses path_exists QuantityToken v =
     QuantityToken_verify_token float_parses v"

section \<open>Data types and the registry (lines 101-151)\<close>

record DataType =
  desc :: string
  token_type :: IdentifierToken

text \<open>\<^verbatim>\<open>DataType.__eq__\<close>: same class and same \<^verbatim>\<open>desc\<close>; the token is not compared.\<close>

definition DataType_eq :: "DataType \<Rightarrow> DataType \<Rightarrow> bool" where
  "DataType_eq a b = (desc a = desc b)"

definition DataType_verify_token ::
  "(string \<Rightarrow> bool) \<Rightarrow> (pyvalue \<Rightarrow> bool) \<Rightarrow> DataType \<Rightarrow> pyvalue \<Rightarrow> bool" where
  "DataType_verify_token float_parses path_exists dt v =
     Token_verify_token float_parses path_exists (token_type dt) v"

definition IMAGE_SET :: DataType where
  "IMAGE_SET = \<lparr>desc = ''IMAGE_SET'', token_type = RedundantStorageToken\<rparr>"
definition IMAGE_SET_ID :: DataType where
  "IMAGE_SET_ID = \<lparr>desc = ''IMAGE_SET_ID'', token_type = RedundantStorageToken\<rparr>"
definition ABSOLUTE_FILE :: DataType where
  "ABSOLUTE_FILE = \<lparr>desc = ''ABSOLUTE_FILE'', token_type = FilenameToken\<rparr>"
definition RELATIVE_FILE :: DataType where
  "RELATIVE_FILE = \<lparr>desc = ''RELATIVE_FILE'', token_type = FilenameToken\<rparr>"
definition IMAGE_NAME :: DataType where
  "IMAGE_NAME = \<lparr>desc = ''IMAGE_NAME'', token_type = UniqueToken\<rparr>"
definition IMAGE_ID :: DataType where
  "IMAGE_ID = \<lparr>desc = ''IMAGE_ID'', token_type = UniqueToken\<rparr>"
definition CLASS_NAME :: DataType where
  "CLASS_NAME = \<lparr>desc = ''CLASS_NAME'', token_type = StorageToken\<rparr>"
definition CLASS_ID :: DataType where
  "CLASS_ID = \<lparr>desc = ''CLASS_ID'', token_type = StorageToken\<rparr>"
definition XMIN :: DataType where
  "XMIN = \<lparr>desc = ''XMIN'', token_type = QuantityToken\<rparr>"
definition YMIN :: DataType where
  "YMIN = \<lparr>desc = ''YMIN'', token_type = QuantityToken\<rparr>"
definition XMAX :: DataType where
  "XMAX = \<lparr>desc = ''XMAX'', token_type = QuantityToken\<rparr>"
definition YMAX :: DataType where
  "YMAX = \<lparr>desc = ''YMAX'', token_type = QuantityToken\<rparr>"
definition WIDTH :: DataType where
  "WIDTH = \<lparr>desc = ''WIDTH'', token_type = QuantityToken\<rparr>"
definition HEIGHT :: DataType where
  "HEIGHT = \<lparr>desc = ''HEIGHT'', token_type = QuantityToken\<rparr>"
definition GENERIC :: DataType where
  "GENERIC = \<lparr>desc = ''GENERIC'', token_type = WildcardToken\<rparr>"

text \<open>
  The \<^verbatim>\<open>DataType\<close> attributes of class \<^verbatim>\<open>DataTypes\<close>, in the order in which
  \<^verbatim>\<open>vars(DataTypes).values()\<close> yields them (the order of declaration).
\<close>

definition DataTypes :: "DataType list" where
  "DataTypes = [IMAGE_SET, IMAGE_SET_ID, ABSOLUTE_FILE, RELATIVE_FILE, IMAGE_NAME, IMAGE_ID,
     CLASS_NAME, CLASS_ID, XMIN, YMIN, XMAX, YMAX, WIDTH, HEIGHT, GENERIC]"

section \<open>Data items (lines 153-174)\<close>

text \<open>
  The value of an item is annotated \<^verbatim>\<open>str\<close>, but the constructor takes whatever passes
  \<^verbatim>\<open>verify_token\<close>, so the record is polymorphic in the value. The operations on entries
  compare values with \<^verbatim>\<open>==\<close>, modelled by HOL equality: this is Python's equality on
  strings, the annotated type.
\<close>

record 'v DataItem =
  delimiter :: DataType
  item_value :: 'v

definition DataItem_eq :: "'v DataItem \<Rightarrow> 'v DataItem \<Rightarrow> bool" where
  "DataItem_eq a b = (DataType_eq (delimiter a) (delimiter b) \<and> item_value a = item_value b)"

text \<open>
  A field of an entry holds one item, or, after \<^verbatim>\<open>merge\<close> or \<^verbatim>\<open>apply_tokens\<close> has
  promoted it, a Python list of items.
\<close>

datatype 'v slot = Single "'v DataItem" | Many "'v DataItem list"

text \<open>
  The errors, under the names of the specification. In the source \<open>ValidationError\<close> and
  \<open>ConflictError\<close> are the \<^verbatim>\<open>AssertionError\<close>s of \<^verbatim>\<open>DataItem.__init__\<close> and of
  \<^verbatim>\<open>merge\<close>/\<^verbatim>\<open>apply_tokens\<close>, carrying what their messages print;
  \<open>InvalidOperationError\<close> is the \<^verbatim>\<open>ValueError\<close> of \<^verbatim>\<open>apply_pairing\<close>.
  \<open>AttributeError\<close> is raised by \<^verbatim>\<open>.delimiter\<close> or \<^verbatim>\<open>.value\<close> on a list, \<open>KeyError\<close> by
  \<^verbatim>\<open>self.data[k]\<close> on a missing key.
\<close>

datatype 'v error =
    ValidationError 'v DataType
  | ConflictError "'v slot" "'v DataItem"
  | InvalidOperationError
  | AttributeError
  | KeyError string

text \<open>
  \<^verbatim>\<open>DataItem.__init__\<close>. The check is an \<^verbatim>\<open>assert\<close> statement, in force unless the
  interpreter is run with assertions switched off.
\<close>

definition DataItem_init ::
  "(string \<Rightarrow> bool) \<Rightarrow> (pyvalue \<Rightarrow> bool) \<Rightarrow> DataType \<Rightarrow> pyvalue
     \<Rightarrow> pyvalue error + pyvalue DataItem" where
  "DataItem_init float_parses path_exists dt v =
     (if DataType_verify_token float_parses path_exists dt v
      then Inr \<lparr>delimiter = dt, item_value = v\<rparr>
      else Inl (ValidationError v dt))"

text \<open>
  Python's \<^verbatim>\<open>==\<close> between two field contents: \<^verbatim>\<open>DataItem.__eq__\<close> between items,
  elementwise between lists, and \<^verbatim>\<open>False\<close> between an item and a list
  (\<^verbatim>\<open>DataItem.__eq__\<close> compares the classes first).
\<close>

fun slot_eq :: "'v slot \<Rightarrow> 'v slot \<Rightarrow> bool" where
  "slot_eq (Single a) (Single b) = DataItem_eq a b"
| "slot_eq (Many xs) (Many ys) = list_all2 DataItem_eq xs ys"
| "slot_eq _ _ = False"

text \<open>
  Modelled from the spec: \<^verbatim>\<open>union\<close> of \<^verbatim>\<open>_utils\<close>, which is not among the sources. The
  specification says the stored value is promoted into a sequence if it is not one already.
\<close>

fun union :: "'v slot \<Rightarrow> 'v DataItem list" where
  "union (Single x) = [x]"
| "union (Many xs) = xs"

section \<open>Dictionaries\<close>

text \<open>
  A Python \<^verbatim>\<open>dict\<close> keeps its keys in order of first insertion: an association list
  with distinct keys. Assigning to a key that is present replaces the value in place,
  assigning to a new key appends.
\<close>

type_synonym ('k, 'a) dict = "('k \<times> 'a) list"

definition dict_get :: "('k, 'a) dict \<Rightarrow> 'k \<Rightarrow> 'a option" where
  "dict_get d k = map_of d k"

fun dict_set :: "('k, 'a) dict \<Rightarrow> 'k \<Rightarrow> 'a \<Rightarrow> ('k, 'a) dict" where
  "dict_set [] k v = [(k, v)]"
| "dict_set ((k', v') # d) k v = (if k' = k then (k, v) # d else (k', v') # dict_set d k v)"

definition dict_values :: "('k, 'a) dict \<Rightarrow> 'a list" where
  "dict_values d = map snd d"

definition dict_keys :: "('k, 'a) dict \<Rightarrow> 'k list" where
  "dict_keys d = map fst d"

section \<open>Data entries (lines 176-255)\<close>

record 'v DataEntry =
  unique :: bool
  data :: "(string, 'v slot) dict"

text \<open>
  \<^verbatim>\<open>DataEntry.__init__\<close>, on the list that \<^verbatim>\<open>union(items)\<close> yields (a single item is a
  list of one). The flag is computed from all the items given; in the dictionary a later
  item replaces an earlier one of the same label.
\<close>

definition DataEntry_init :: "'v DataItem list \<Rightarrow> 'v DataEntry" where
  "DataEntry_init items =
     \<lparr>unique = list_ex (\<lambda>item. isinstance_UniqueToken (token_type (delimiter item))) items,
      data = foldl (\<lambda>d item. dict_set d (desc (delimiter item)) (Single item)) [] items\<rparr>"

text \<open>
  \<^verbatim>\<open>merge\<close>, first loop: the assertions on the fields of \<open>other\<close>, in the order of its
  dictionary. Nothing is assigned in this loop. Reading \<^verbatim>\<open>item.delimiter\<close> on a field
  that holds a list raises \<^verbatim>\<open>AttributeError\<close>.
\<close>

fun merge_check :: "(string, 'v slot) dict \<Rightarrow> (string, 'v slot) dict \<Rightarrow> 'v error option" where
  "merge_check self_data [] = None"
| "merge_check self_data ((d, Many xs) # rest) = Some AttributeError"
| "merge_check self_data ((d, Single item) # rest) =
     (if isinstance_UniqueToken (token_type (delimiter item)) then
        (case dict_get self_data d of
           None \<Rightarrow> merge_check self_data rest
         | Some cur \<Rightarrow>
             if slot_eq cur (Single item) then merge_check self_data rest
             else Some (ConflictError cur item))
      else merge_check self_data rest)"

text \<open>
  \<^verbatim>\<open>merge\<close>, second loop: the state is \<^verbatim>\<open>self.data\<close>; the result is the dictionary
  reached and the exception raised, if any.
\<close>

fun merge_apply ::
  "(string, 'v slot) dict \<Rightarrow> (string, 'v slot) dict \<Rightarrow> (string, 'v slot) dict \<times> 'v error option" where
  "merge_apply self_data [] = (self_data, None)"
| "merge_apply self_data ((d, item) # rest) =
     (case dict_get self_data d of
        None \<Rightarrow> merge_apply (dict_set self_data d item) rest
      | Some cur \<Rightarrow>
          (case item of
             Many xs \<Rightarrow> (self_data, Some AttributeError)
           | Single it \<Rightarrow>
               if isinstance_RedundantStorageToken (token_type (delimiter it))
               then merge_apply (dict_set self_data d (Many (union cur @ [it]))) rest
               else merge_apply self_data rest))"

text \<open>
  \<^verbatim>\<open>self.merge(other)\<close>: the entry \<open>self\<close> as the call leaves it, and the exception raised,
  if any. \<open>other\<close> is only read. The two entries are taken to be distinct objects.
\<close>

definition merge :: "'v DataEntry \<Rightarrow> 'v DataEntry \<Rightarrow> 'v DataEntry \<times> 'v error option" where
  "merge self other =
     (case merge_check (data self) (data other) of
        Some e \<Rightarrow> (self, Some e)
      | None \<Rightarrow>
          (case merge_apply (data self) (data other) of
             (d, exc) \<Rightarrow> (self\<lparr>data := d\<rparr>, exc)))"

text \<open>
  \<^verbatim>\<open>apply_tokens\<close>, first loop. The argument is a Python list whose elements are items;
  \<^verbatim>\<open>apply_pairing\<close> passes the values of a dictionary, which may hold lists, so the
  elements are field contents. \<^verbatim>\<open>self.data[delim.desc]\<close> raises \<^verbatim>\<open>KeyError\<close> when the
  key is missing.
\<close>

fun apply_tokens_check :: "(string, 'v slot) dict \<Rightarrow> 'v slot list \<Rightarrow> 'v error option" where
  "apply_tokens_check self_data [] = None"
| "apply_tokens_check self_data (Many xs # rest) = Some AttributeError"
| "apply_tokens_check self_data (Single item # rest) =
     (if isinstance_UniqueToken (token_type (delimiter item)) then
        (case dict_get self_data (desc (delimiter item)) of
           None \<Rightarrow> Some (KeyError (desc (delimiter item)))
         | Some cur \<Rightarrow>
             if slot_eq cur (Single item) then apply_tokens_check self_data rest
             else Some (ConflictError cur item))
      else apply_tokens_check self_data rest)"

fun apply_tokens_apply ::
  "(string, 'v slot) dict \<Rightarrow> 'v slot list \<Rightarrow> (string, 'v slot) dict \<times> 'v error option" where
  "apply_tokens_apply self_data [] = (self_data, None)"
| "apply_tokens_apply self_data (Many xs # rest) = (self_data, Some AttributeError)"
| "apply_tokens_apply self_data (Single it # rest) =
     (case dict_get self_data (desc (delimiter it)) of
        None \<Rightarrow> apply_tokens_apply (dict_set self_data (desc (delimiter it)) (Single it)) rest
      | Some cur \<Rightarrow>
          if isinstance_RedundantStorageToken (token_type (delimiter it))
          then apply_tokens_apply
                 (dict_set self_data (desc (delimiter it)) (Many (union cur @ [it]))) rest
          else apply_tokens_apply self_data rest)"

definition apply_tokens ::
  "'v DataEntry \<Rightarrow> 'v slot list \<Rightarrow> 'v DataEntry \<times> 'v error option" where
  "apply_tokens self items =
     (case apply_tokens_check (data self) items of
        Some e \<Rightarrow> (self, Some e)
      | None \<Rightarrow>
          (case apply_tokens_apply (data self) items of
             (d, exc) \<Rightarrow> (self\<lparr>data := d\<rparr>, exc)))"

text \<open>
  \<^verbatim>\<open>apply_pairing\<close>. The test of line 241 is
  \<^verbatim>\<open>any([item in entry.data.values() for item in self.data.values()])\<close>; membership
  compares with \<^verbatim>\<open>==\<close>. The result is the list of entries as the call leaves them and
  the exception raised, if any; \<open>self\<close> is taken not to be one of the entries.
\<close>

definition pairing_match :: "'v DataEntry \<Rightarrow> 'v DataEntry \<Rightarrow> bool" where
  "pairing_match self entry =
     list_ex (\<lambda>item. list_ex (\<lambda>v. slot_eq v item) (dict_values (data entry)))
       (dict_values (data self))"

fun apply_pairing_loop ::
  "'v DataEntry \<Rightarrow> 'v DataEntry list \<Rightarrow> 'v DataEntry list \<times> 'v error option" where
  "apply_pairing_loop self [] = ([], None)"
| "apply_pairing_loop self (entry # rest) =
     (if pairing_match self entry then
        (case apply_tokens entry (dict_values (data self)) of
           (entry', Some e) \<Rightarrow> (entry' # rest, Some e)
         | (entry', None) \<Rightarrow>
             (case apply_pairing_loop self rest of (rest', exc) \<Rightarrow> (entry' # rest', exc)))
      else (case apply_pairing_loop self rest of (rest', exc) \<Rightarrow> (entry # rest', exc)))"

definition apply_pairing ::
  "'v DataEntry \<Rightarrow> 'v DataEntry list \<Rightarrow> 'v DataEntry list \<times> 'v error option" where
  "apply_pairing self entries =
     (if unique self then (entries, Some InvalidOperationError)
      else apply_pairing_loop self entries)"

text \<open>\<^verbatim>\<open>get_unique_ids\<close>: the loop over the values, with the list built so far.\<close>

fun get_unique_ids_loop :: "'v DataItem list \<Rightarrow> 'v slot list \<Rightarrow> 'v error + 'v DataItem list" where
  "get_unique_ids_loop id_items [] = Inr id_items"
| "get_unique_ids_loop id_items (Many xs # rest) = Inl AttributeError"
| "get_unique_ids_loop id_items (Single item # rest) =
     (if isinstance_UniqueToken (token_type (delimiter item))
      then get_unique_ids_loop (id_items @ [item]) rest
      else get_unique_ids_loop id_items rest)"

definition get_unique_ids :: "'v DataEntry \<Rightarrow> 'v error + 'v DataItem list" where
  "get_unique_ids self = get_unique_ids_loop [] (dict_values (data self))"

section \<open>Merging two lists of entries (lines 257-283)\<close>

text \<open>
  The identifiers of \<^verbatim>\<open>merge_lists\<close>: the registry's data types whose token is an
  instance of \<^verbatim>\<open>_UniqueToken\<close>, in the registry's order.
\<close>

definition unique_identifiers :: "DataType list" where
  "unique_identifiers =
     filter (\<lambda>var. isinstance_UniqueToken (token_type var)) DataTypes"

text \<open>
  \<^verbatim>\<open>hashmaps[identifier.desc][value.value] = entry\<close> stores a reference to an entry of
  \<^verbatim>\<open>data\<close>, a shallow copy of \<^verbatim>\<open>first\<close>. The reference is modelled by the position of
  the entry in \<^verbatim>\<open>data\<close>; the entries of \<^verbatim>\<open>first\<close> are taken to be distinct objects.
  The inner loop of lines 268-270 runs over the entries with their positions.
  \<^verbatim>\<open>if value\<close> is false for \<^verbatim>\<open>None\<close> and for an empty list; \<^verbatim>\<open>value.value\<close> on a list
  raises \<^verbatim>\<open>AttributeError\<close>.
\<close>

fun index_entries ::
  "string \<Rightarrow> (nat \<times> 'v DataEntry) list \<Rightarrow> ('v \<rightharpoonup> nat) \<Rightarrow> 'v error + ('v \<rightharpoonup> nat)" where
  "index_entries d [] m = Inr m"
| "index_entries d ((i, entry) # rest) m =
     (case dict_get (data entry) d of
        None \<Rightarrow> index_entries d rest m
      | Some (Many []) \<Rightarrow> index_entries d rest m
      | Some (Many (x # xs)) \<Rightarrow> Inl AttributeError
      | Some (Single item) \<Rightarrow> index_entries d rest (m(item_value item \<mapsto> i)))"

fun build_hashmaps ::
  "DataType list \<Rightarrow> 'v DataEntry list \<Rightarrow> (string \<rightharpoonup> ('v \<rightharpoonup> nat))
     \<Rightarrow> 'v error + (string \<rightharpoonup> ('v \<rightharpoonup> nat))" where
  "build_hashmaps [] entries hashmaps = Inr hashmaps"
| "build_hashmaps (identifier # ids) entries hashmaps =
     (case index_entries (desc identifier) (enumerate 0 entries) Map.empty of
        Inl e \<Rightarrow> Inl e
      | Inr m \<Rightarrow> build_hashmaps ids entries (hashmaps(desc identifier \<mapsto> m)))"

text \<open>
  The inner loop of lines 275-280 for one entry of \<^verbatim>\<open>second\<close>: the position of the entry
  to merge into, found under the first identifier that matches (\<^verbatim>\<open>break\<close>), or \<^verbatim>\<open>None\<close>
  when the loop ends with \<^verbatim>\<open>merged\<close> still false.
\<close>

fun find_match ::
  "(string \<rightharpoonup> ('v \<rightharpoonup> nat)) \<Rightarrow> DataType list \<Rightarrow> 'v DataEntry \<Rightarrow> 'v error + nat option" where
  "find_match hashmaps [] entry = Inr None"
| "find_match hashmaps (identifier # ids) entry =
     (case dict_get (data entry) (desc identifier) of
        None \<Rightarrow> find_match hashmaps ids entry
      | Some (Many []) \<Rightarrow> find_match hashmaps ids entry
      | Some (Many (x # xs)) \<Rightarrow> Inl AttributeError
      | Some (Single item) \<Rightarrow>
          (case hashmaps (desc identifier) of
             None \<Rightarrow> Inl (KeyError (desc identifier))
           | Some m \<Rightarrow>
               (case m (item_value item) of
                  Some i \<Rightarrow> Inr (Some i)
                | None \<Rightarrow> find_match hashmaps ids entry)))"

text \<open>
  The loop of lines 273-281 over \<^verbatim>\<open>second\<close>, with \<^verbatim>\<open>data\<close> (whose entries \<^verbatim>\<open>merge\<close>
  changes in place) and \<^verbatim>\<open>additional_data\<close> as state, and lines 282-283 at its end. An
  exception of \<^verbatim>\<open>merge\<close> leaves the function: the result is then the exception, and
  the entries already changed in place are not reported.
\<close>

fun merge_lists_loop ::
  "(string \<rightharpoonup> ('v \<rightharpoonup> nat)) \<Rightarrow> DataType list \<Rightarrow> 'v DataEntry list \<Rightarrow> 'v DataEntry list
     \<Rightarrow> 'v DataEntry list \<Rightarrow> 'v error + 'v DataEntry list" where
  "merge_lists_loop hashmaps ids entries additional_data [] = Inr (entries @ additional_data)"
| "merge_lists_loop hashmaps ids entries additional_data (entry # rest) =
     (case find_match hashmaps ids entry of
        Inl e \<Rightarrow> Inl e
      | Inr None \<Rightarrow> merge_lists_loop hashmaps ids entries (additional_data @ [entry]) rest
      | Inr (Some i) \<Rightarrow>
          (case merge (entries ! i) entry of
             (merged, Some e) \<Rightarrow> Inl e
           | (merged, None) \<Rightarrow>
               merge_lists_loop hashmaps ids (entries[i := merged]) additional_data rest))"

definition merge_lists :: "'v DataEntry list \<Rightarrow> 'v DataEntry list \<Rightarrow> 'v error + 'v DataEntry list" where
  "merge_lists first second =
     (case build_hashmaps unique_identifiers first Map.empty of
        Inl e \<Rightarrow> Inl e
      | Inr hashmaps \<Rightarrow> merge_lists_loop hashmaps unique_identifiers first [] second)"

section \<open>Implied lists (src/dynamicdl/parsing/impliedlist.py)\<close>

text \<open>
  The field \<open>form\<close> is the list \<^verbatim>\<open>self.form.form\<close> of the \<^verbatim>\<open>GenericList\<close> that the
  constructor stores; its elements are left abstract.
\<close>

record 'f ImpliedList =
  form :: "'f list"
  indexer :: DataType
  start :: int

text \<open>\<^verbatim>\<open>type(dataset)\<close>, by the name of the class.\<close>

fun py_type :: "pyvalue \<Rightarrow> string" where
  "py_type (PyInt _) = ''int''"
| "py_type (PyBool _) = ''bool''"
| "py_type (PyFloat _) = ''float''"
| "py_type (PyStr _) = ''str''"
| "py_type (PyBytes _) = ''bytes''"
| "py_type PyNone = ''NoneType''"
| "py_type (PyList _) = ''list''"
| "py_type (PyDict _) = ''dict''"

fun isinstance_list :: "pyvalue \<Rightarrow> bool" where
  "isinstance_list (PyList _) = True"
| "isinstance_list _ = False"

datatype dataset_error = DatasetError string "string list" string

text \<open>
  Modelled from the spec: \<^verbatim>\<open>Warnings.error\<close> of \<^verbatim>\<open>_warnings\<close>, which is not among the
  sources. The specification says that a failed shape check raises a \<open>DatasetError\<close>
  tagged \<open>incorrect_type\<close> that carries the current path and the observed shape. The
  result is the exception raised.
\<close>

definition Warnings_error :: "string \<Rightarrow> string list \<Rightarrow> string \<Rightarrow> dataset_error" where
  "Warnings_error error_key path got = DatasetError error_key path got"

text \<open>\<^verbatim>\<open>dict(enumerate(xs, start=start))\<close>\<close>

definition enumerate_from :: "int \<Rightarrow> 'a list \<Rightarrow> (int, 'a) dict" where
  "enumerate_from s xs = zip (map (\<lambda>i. s + int i) [0..<length xs]) xs"

text \<open>
  \<^verbatim>\<open>ImpliedList.expand\<close>. \<^verbatim>\<open>expand_generics\<close> of \<^verbatim>\<open>_main._engine\<close> is not among the
  sources and is a parameter.
\<close>

definition ImpliedList_expand ::
  "(string list \<Rightarrow> (int, pyvalue) dict \<Rightarrow> (int, 'f) dict \<Rightarrow> 'p \<Rightarrow> nat \<Rightarrow> dataset_error + 'r)
     \<Rightarrow> 'f ImpliedList \<Rightarrow> string list \<Rightarrow> pyvalue \<Rightarrow> 'p \<Rightarrow> nat \<Rightarrow> dataset_error + 'r" where
  "ImpliedList_expand expand_generics self path dataset pbar depth =
     (case dataset of
        PyList xs \<Rightarrow>
          expand_generics path (enumerate_from (start self) xs)
            (enumerate_from (start self) (form self)) pbar depth
      | _ \<Rightarrow> Inl (Warnings_error ''incorrect_type'' path (py_type dataset)))"

section \<open>Notions of the specification\<close>

text \<open>
  The definitions of this section are not code of the repository: they state the
  notions that the specification uses, for the theorems to speak about.
\<close>

text \<open>Every field of the dictionary holds one item (none was promoted to a list).\<close>

definition all_single :: "(string, 'v slot) dict \<Rightarrow> bool" where
  "all_single d = list_all (\<lambda>s. case s of Single x \<Rightarrow> True | Many xs \<Rightarrow> False) (dict_values d)"

text \<open>The items an entry contains, those inside promoted lists included.\<close>

definition contained_items :: "'v DataEntry \<Rightarrow> 'v DataItem list" where
  "contained_items e = concat (map union (dict_values (data e)))"

definition is_unique_item :: "'v DataItem \<Rightarrow> bool" where
  "is_unique_item item = isinstance_UniqueToken (token_type (delimiter item))"

definition contains_unique :: "'v DataEntry \<Rightarrow> bool" where
  "contains_unique e = list_ex is_unique_item (contained_items e)"

text \<open>Some value of an item of \<open>e\<close> is the value of an item of \<open>c\<close>.\<close>

definition shares_value :: "'v DataEntry \<Rightarrow> 'v DataEntry \<Rightarrow> bool" where
  "shares_value e c =
     list_ex (\<lambda>x. list_ex (\<lambda>y. item_value y = item_value x) (contained_items c))
       (contained_items e)"

text \<open>Some item of \<open>e\<close> has the label and the value of an item of \<open>c\<close>.\<close>

definition shares_item :: "'v DataEntry \<Rightarrow> 'v DataEntry \<Rightarrow> bool" where
  "shares_item e c =
     list_ex (\<lambda>x. list_ex (\<lambda>y. desc (delimiter y) = desc (delimiter x)
                               \<and> item_value y = item_value x) (contained_items c))
       (contained_items e)"

text \<open>
  No field of \<open>b\<close> of Unique kind is in conflict with \<open>a\<close>: where \<open>a\<close> has the field, its
  content equals the item of \<open>b\<close>.
\<close>

definition no_unique_conflict :: "'v DataEntry \<Rightarrow> 'v DataEntry \<Rightarrow> bool" where
  "no_unique_conflict a b =
     list_all (\<lambda>(d, s). case s of
                 Many xs \<Rightarrow> True
               | Single y \<Rightarrow>
                   (if is_unique_item y
                    then (case dict_get (data a) d of None \<Rightarrow> True | Some cur \<Rightarrow> slot_eq cur (Single y))
                    else True))
       (data b)"

text \<open>
  The value an entry has for a label, when the field holds one item; and the fields under
  the labels of the identifiers hold one item each (a list can only come under such a
  label from a data type outside the registry that reuses the label).
\<close>

definition field_value :: "'v DataEntry \<Rightarrow> string \<Rightarrow> 'v option" where
  "field_value e d =
     (case dict_get (data e) d of
        None \<Rightarrow> None
      | Some (Single item) \<Rightarrow> Some (item_value item)
      | Some (Many xs) \<Rightarrow> None)"

definition holds_list :: "'v DataEntry \<Rightarrow> string \<Rightarrow> bool" where
  "holds_list e d =
     (case dict_get (data e) d of
        None \<Rightarrow> False
      | Some (Single item) \<Rightarrow> False
      | Some (Many xs) \<Rightarrow> True)"

definition identity_fields_single :: "'v DataEntry \<Rightarrow> bool" where
  "identity_fields_single e = list_all (\<lambda>t. \<not> holds_list e (desc t)) unique_identifiers"

text \<open>
  The lookup of the list-merge algorithm, in the words of the specification: from a value
  of the type labelled \<open>d\<close> to the entry of \<open>base\<close> that holds it, the later entry
  winning when two hold the same value. An entry is named by its position in \<open>base\<close>.
\<close>

definition spec_lookup :: "'v DataEntry list \<Rightarrow> string \<Rightarrow> 'v \<Rightarrow> nat option" where
  "spec_lookup base d v =
     map_option fst (find (\<lambda>(i, e). field_value e d = Some v) (rev (enumerate 0 base)))"

text \<open>
  The entry of \<open>base\<close> found under the first identity type, in their order, for which the
  entry \<open>e\<close> has a value that is present in that type's lookup.
\<close>

definition spec_first_match :: "'v DataEntry list \<Rightarrow> DataType list \<Rightarrow> 'v DataEntry \<Rightarrow> nat option" where
  "spec_first_match base types e =
     (case List.map_filter
             (\<lambda>t. case field_value e (desc t) of
                     None \<Rightarrow> None
                   | Some v \<Rightarrow> spec_lookup base (desc t) v) types of
        [] \<Rightarrow> None
      | i # rest \<Rightarrow> Some i)"

text \<open>
  Step 4 of the algorithm: each incoming entry is merged into the entry of the result that
  its first match names, or appended, in incoming order, when nothing matches. The lookups
  are those of \<open>base\<close>, built once.
\<close>

fun spec_merge_entries ::
  "'v DataEntry list \<Rightarrow> DataType list \<Rightarrow> 'v DataEntry list \<Rightarrow> 'v DataEntry list
     \<Rightarrow> 'v DataEntry list \<Rightarrow> 'v error + 'v DataEntry list" where
  "spec_merge_entries base types result unmatched [] = Inr (result @ unmatched)"
| "spec_merge_entries base types result unmatched (e # es) =
     (case spec_first_match base types e of
        None \<Rightarrow> spec_merge_entries base types result (unmatched @ [e]) es
      | Some i \<Rightarrow>
          (case merge (result ! i) e of
             (r, Some err) \<Rightarrow> Inl err
           | (r, None) \<Rightarrow> spec_merge_entries base types (result[i := r]) unmatched es))"

definition merge_entry_lists ::
  "'v DataEntry list \<Rightarrow> 'v DataEntry list \<Rightarrow> 'v error + 'v DataEntry list" where
  "merge_entry_lists base incoming =
     spec_merge_entries base
       (filter (\<lambda>t. isinstance_UniqueToken (token_type t)) DataTypes) base [] incoming"

section \<open>Example items\<close>

definition class_cat :: "string DataItem" where
  "class_cat = \<lparr>delimiter = CLASS_NAME, item_value = ''cat''\<rparr>"
definition class_dog :: "string DataItem" where
  "class_dog = \<lparr>delimiter = CLASS_NAME, item_value = ''dog''\<rparr>"
definition class_id_1 :: "string DataItem" where
  "class_id_1 = \<lparr>delimiter = CLASS_ID, item_value = ''1''\<rparr>"
definition image_id_1 :: "string DataItem" where
  "image_id_1 = \<lparr>delimiter = IMAGE_ID, item_value = ''1''\<rparr>"
definition image_id_2 :: "string DataItem" where
  "image_id_2 = \<lparr>delimiter = IMAGE_ID, item_value = ''2''\<rparr>"
definition image_name_cat :: "string DataItem" where
  "image_name_cat = \<lparr>delimiter = IMAGE_NAME, item_value = ''cat.jpg''\<rparr>"
definition file_cat :: "string DataItem" where
  "file_cat = \<lparr>delimiter = ABSOLUTE_FILE, item_value = ''/data/cat.jpg''\<rparr>"
definition file_dog :: "string DataItem" where
  "file_dog = \<lparr>delimiter = ABSOLUTE_FILE, item_value = ''/data/dog.jpg''\<rparr>"
definition set_train :: "string DataItem" where
  "set_train = \<lparr>delimiter = IMAGE_SET, item_value = ''train''\<rparr>"
definition set_val :: "string DataItem" where
  "set_val = \<lparr>delimiter = IMAGE_SET, item_value = ''val''\<rparr>"

section \<open>Dictionaries: lookup after assignment\<close>

lemma dict_get_dict_set:
  "dict_get (dict_set d k v) k' = (if k' = k then Some v else dict_get d k')"
  by (induction d) (auto simp: dict_get_def)

lemma dict_keys_dict_set:
  "dict_keys (dict_set d k v) = (if k \<in> set (dict_keys d) then dict_keys d else dict_keys d @ [k])"
  by (induction d) (force simp: dict_keys_def)+

lemma dict_get_None_iff: "dict_get d k = None \<longleftrightarrow> k \<notin> set (dict_keys d)"
  by (simp add: dict_get_def dict_keys_def map_of_eq_None_iff)

section \<open>Unfolding the example items\<close>

lemmas example_defs =
  class_cat_def class_dog_def class_id_1_def image_id_1_def image_id_2_def image_name_cat_def
  file_cat_def file_dog_def set_train_def set_val_def
  IMAGE_SET_def IMAGE_SET_ID_def ABSOLUTE_FILE_def RELATIVE_FILE_def IMAGE_NAME_def IMAGE_ID_def
  CLASS_NAME_def CLASS_ID_def

section \<open>Construction of items\<close>

text \<open>
  Claim C8. A data item whose data type has the Quantity token is constructed exactly when
  the value is an \<^verbatim>\<open>int\<close> (a \<^verbatim>\<open>bool\<close> is one), a \<^verbatim>\<open>float\<close>, or a string that \<^verbatim>\<open>float\<close>
  parses; for every other value the constructor fails with the \<open>ValidationError\<close> (the
  failed assertion of \<^verbatim>\<open>DataItem.__init__\<close>) that names the value and the type.
\<close>

theorem quantity_construction:
  "token_type dt = QuantityToken \<Longrightarrow>
     (if isinstance_int_or_float v \<or> (\<exists>s. v = PyStr s \<and> float_parses s)
      then DataItem_init float_parses path_exists dt v = Inr \<lparr>delimiter = dt, item_value = v\<rparr>
      else DataItem_init float_parses path_exists dt v = Inl (ValidationError v dt))"
  by (cases v) (simp_all add: DataItem_init_def DataType_verify_token_def)

text \<open>
  Claim C8 on the type \<open>XMIN\<close>, with a parser that accepts the string \<open>1.5\<close> only.
\<close>

theorem quantity_construction_witness:
  "token_type XMIN = QuantityToken
   \<and> DataItem_init (\<lambda>s. s = ''1.5'') (\<lambda>p. False) XMIN (PyStr ''1.5'')
       = Inr \<lparr>delimiter = XMIN, item_value = PyStr ''1.5''\<rparr>
   \<and> DataItem_init (\<lambda>s. s = ''1.5'') (\<lambda>p. False) XMIN (PyInt 3)
       = Inr \<lparr>delimiter = XMIN, item_value = PyInt 3\<rparr>
   \<and> DataItem_init (\<lambda>s. s = ''1.5'') (\<lambda>p. False) XMIN (PyStr ''abc'')
       = Inl (ValidationError (PyStr ''abc'') XMIN)
   \<and> DataItem_init (\<lambda>s. s = ''1.5'') (\<lambda>p. False) XMIN PyNone
       = Inl (ValidationError PyNone XMIN)"
proof -
  have q: "token_type XMIN = QuantityToken" by (simp add: XMIN_def)
  show ?thesis
    using q quantity_construction [OF q, of "PyStr ''1.5''" "\<lambda>s. s = ''1.5''" "\<lambda>p. False"]
      quantity_construction [OF q, of "PyInt 3" "\<lambda>s. s = ''1.5''" "\<lambda>p. False"]
      quantity_construction [OF q, of "PyStr ''abc''" "\<lambda>s. s = ''1.5''" "\<lambda>p. False"]
      quantity_construction [OF q, of "PyNone" "\<lambda>s. s = ''1.5''" "\<lambda>p. False"]
    by simp
qed

section \<open>The shape check of implied lists\<close>

text \<open>
  Claim C9. When the dataset is not a list, \<^verbatim>\<open>ImpliedList.expand\<close> raises the
  \<open>DatasetError\<close> tagged \<open>incorrect_type\<close> with the current path and the type observed,
  whatever \<^verbatim>\<open>expand_generics\<close> would do: the expansion is not reached.
\<close>

theorem expand_incorrect_type:
  "\<not> isinstance_list dataset \<Longrightarrow>
     ImpliedList_expand expand_generics self path dataset pbar depth
       = Inl (DatasetError ''incorrect_type'' path (py_type dataset))"
  by (cases dataset) (simp_all add: ImpliedList_expand_def Warnings_error_def)

text \<open>
  Claim C9 on the string \<open>not-a-list\<close>, with an expansion that would return a number.
\<close>

theorem expand_incorrect_type_witness:
  "\<not> isinstance_list (PyStr ''not-a-list'')
   \<and> ImpliedList_expand (\<lambda>path d f pbar depth. Inr (length d))
        \<lparr>form = [GENERIC], indexer = CLASS_ID, start = 0\<rparr> [''classes''] (PyStr ''not-a-list'') () 0
       = Inl (DatasetError ''incorrect_type'' [''classes''] ''str'')"
proof -
  have n: "\<not> isinstance_list (PyStr ''not-a-list'')" by simp
  show ?thesis
    using n expand_incorrect_type [OF n, of "\<lambda>path d f pbar depth. Inr (length d)"
        "\<lparr>form = [GENERIC], indexer = CLASS_ID, start = 0\<rparr>" "[''classes'']" "()" 0]
    by simp
qed

section \<open>Attaching items to an entry\<close>

text \<open>
  Claim C4, at the input where the code departs from it: the entry holds a class name, the
  list holds one image id, a Unique item whose field the entry does not have. The first
  loop of \<^verbatim>\<open>apply_tokens\<close> reads \<^verbatim>\<open>self.data['IMAGE_ID']\<close> and raises \<^verbatim>\<open>KeyError\<close>;
  the item is not inserted.
\<close>

theorem apply_tokens_absent_unique_raises:
  "apply_tokens (DataEntry_init [class_cat]) [Single image_id_1]
     = (DataEntry_init [class_cat], Some (KeyError ''IMAGE_ID''))"
  by (simp add: apply_tokens_def DataEntry_init_def class_cat_def image_id_1_def
      CLASS_NAME_def IMAGE_ID_def dict_get_def)

section \<open>Merging two entries\<close>

lemma all_single_Cons:
  "all_single ((d, s) # rest) \<longleftrightarrow> (\<exists>x. s = Single x) \<and> all_single rest"
  by (cases s) (simp_all add: all_single_def dict_values_def)

lemma all_single_Nil: "all_single []"
  by (simp add: all_single_def dict_values_def)

lemma merge_check_None_all_single:
  "merge_check sd other = None \<Longrightarrow> all_single other"
  by (induction sd other rule: merge_check.induct)
     (auto simp: all_single_Cons all_single_Nil split: if_splits option.splits)

lemma merge_apply_all_single:
  "all_single other \<Longrightarrow> snd (merge_apply sd other) = None"
  by (induction sd other rule: merge_apply.induct)
     (auto simp: all_single_Cons split: option.splits)

lemma merge_all_or_nothing:
  "snd (merge a b) \<noteq> None \<Longrightarrow> fst (merge a b) = a"
proof (cases "merge_check (data a) (data b)")
  case (Some e)
  then show ?thesis by (simp add: merge_def)
next
  case None
  then have "snd (merge_apply (data a) (data b)) = None"
    by (intro merge_apply_all_single merge_check_None_all_single)
  with None have "snd (merge a b) = None"
    by (cases "merge_apply (data a) (data b)") (simp add: merge_def)
  moreover assume "snd (merge a b) \<noteq> None"
  ultimately show ?thesis by simp
qed

lemma merge_unique_unchanged: "unique (fst (merge a b)) = unique a"
  by (simp add: merge_def split: option.splits prod.splits)

lemma merge_check_error:
  "merge_check sd other = Some e \<Longrightarrow>
     e = AttributeError \<or>
     (\<exists>d s y. e = ConflictError s y \<and> dict_get sd d = Some s \<and> (d, Single y) \<in> set other
        \<and> is_unique_item y \<and> \<not> slot_eq s (Single y))"
  by (induction sd other rule: merge_check.induct)
     (auto simp: is_unique_item_def split: if_splits option.splits)

lemma merge_check_single_not_attribute:
  "all_single other \<Longrightarrow> merge_check sd other \<noteq> Some AttributeError"
  by (induction sd other rule: merge_check.induct)
     (auto simp: all_single_Cons split: if_splits option.splits)

lemma merge_check_conflict:
  "(d, Single y) \<in> set other \<Longrightarrow> is_unique_item y \<Longrightarrow> dict_get sd d = Some s
     \<Longrightarrow> \<not> slot_eq s (Single y) \<Longrightarrow> merge_check sd other \<noteq> None"
  by (induction sd other rule: merge_check.induct)
     (auto simp: is_unique_item_def split: if_splits option.splits)

lemma differing_values_not_eq:
  "item_value x \<noteq> item_value y \<Longrightarrow> \<not> slot_eq (Single x) (Single y)"
  by (simp add: DataItem_eq_def)

text \<open>
  A conflict makes \<^verbatim>\<open>merge\<close> fail and leaves \<open>self\<close> as it was. Let \<open>b\<close> hold, under some
  label, one item of Unique kind, and let \<open>a\<close> hold under the same label a content that is
  not equal to it. Then \<open>a.merge(b)\<close> raises and \<open>a\<close> is unchanged. The exception is the
  \<open>ConflictError\<close> for a conflicting field of Unique kind, or the \<^verbatim>\<open>AttributeError\<close> of a
  field of \<open>b\<close> that holds a list; it is the \<open>ConflictError\<close> when every field of \<open>b\<close> holds
  one item.
\<close>

lemma merge_conflict:
  assumes "dict_get (data a) d = Some s" and "dict_get (data b) d = Some (Single y)"
    and "is_unique_item y" and "\<not> slot_eq s (Single y)"
  shows "fst (merge a b) = a
     \<and> (snd (merge a b) = Some AttributeError
        \<or> (\<exists>d' s' y'. snd (merge a b) = Some (ConflictError s' y')
              \<and> dict_get (data a) d' = Some s' \<and> (d', Single y') \<in> set (data b)
              \<and> is_unique_item y' \<and> \<not> slot_eq s' (Single y')))
     \<and> (all_single (data b) \<longrightarrow> snd (merge a b) \<noteq> Some AttributeError)"
proof -
  from assms(2) have "(d, Single y) \<in> set (data b)"
    by (simp add: dict_get_def map_of_SomeD)
  then have "merge_check (data a) (data b) \<noteq> None"
    using merge_check_conflict [of d y "data b" "data a" s] assms(1,3,4) by blast
  then obtain e where e: "merge_check (data a) (data b) = Some e" by auto
  then have m: "merge a b = (a, Some e)" by (simp add: merge_def)
  from e have "all_single (data b) \<longrightarrow> e \<noteq> AttributeError"
    using merge_check_single_not_attribute [of "data b" "data a"] by auto
  with m merge_check_error [OF e] show ?thesis by auto
qed

lemma merge_apply_lookup:
  "all_single other \<Longrightarrow> distinct (dict_keys other) \<Longrightarrow>
   dict_get (fst (merge_apply sd other)) k =
     (case dict_get other k of
        None \<Rightarrow> dict_get sd k
      | Some s \<Rightarrow>
          (case dict_get sd k of
             None \<Rightarrow> Some s
           | Some cur \<Rightarrow>
               (case s of
                  Single y \<Rightarrow>
                    if isinstance_RedundantStorageToken (token_type (delimiter y))
                    then Some (Many (union cur @ [y])) else Some cur
                | Many xs \<Rightarrow> Some cur)))"
proof (induction other arbitrary: sd)
  case Nil
  then show ?case by (simp add: dict_get_def)
next
  case (Cons p rest)
  obtain d s where p: "p = (d, s)" by (cases p)
  from Cons.prems p obtain y where s: "s = Single y" and r: "all_single rest"
    by (auto simp: all_single_Cons)
  from Cons.prems p have dn: "dict_get rest d = None" and dr: "distinct (dict_keys rest)"
    by (auto simp: dict_get_None_iff dict_keys_def)
  have hd: "dict_get ((d, s) # rest) k = (if k = d then Some s else dict_get rest k)"
    by (simp add: dict_get_def)
  show ?case
    unfolding p s
    using Cons.IH [OF r dr] dn hd [unfolded s]
    by (auto simp: dict_get_dict_set split: option.splits)
qed

lemma dict_get_Some_keys: "dict_get d k = Some v \<Longrightarrow> k \<in> set (dict_keys d)"
  using dict_get_None_iff [of d k] by auto

lemma merge_apply_keys:
  "all_single other \<Longrightarrow> distinct (dict_keys other) \<Longrightarrow>
   dict_keys (fst (merge_apply sd other))
     = dict_keys sd @ filter (\<lambda>k. k \<notin> set (dict_keys sd)) (dict_keys other)"
proof (induction other arbitrary: sd)
  case Nil
  then show ?case by (simp add: dict_keys_def)
next
  case (Cons p rest)
  obtain d s where p: "p = (d, s)" by (cases p)
  from Cons.prems p obtain y where s: "s = Single y" and r: "all_single rest"
    by (auto simp: all_single_Cons)
  from Cons.prems p have dn: "d \<notin> set (dict_keys rest)" and dr: "distinct (dict_keys rest)"
    by (auto simp: dict_keys_def)
  have k: "dict_keys ((d, s) # rest) = d # dict_keys rest" by (simp add: dict_keys_def)
  have f: "filter (\<lambda>k. k \<noteq> d \<and> k \<notin> set ks) (dict_keys rest)
            = filter (\<lambda>k. k \<notin> set ks) (dict_keys rest)" for ks
    using dn by (auto intro: filter_cong)
  show ?case
    unfolding p s
    using Cons.IH [OF r dr] dn k [unfolded s] f
    by (auto simp: dict_keys_dict_set dict_get_None_iff dest: dict_get_Some_keys
        split: option.splits)
qed

lemma merge_check_None:
  "all_single other \<Longrightarrow>
   list_all (\<lambda>(d, s). case s of
                 Many xs \<Rightarrow> True
               | Single y \<Rightarrow>
                   (if is_unique_item y
                    then (case dict_get sd d of None \<Rightarrow> True | Some cur \<Rightarrow> slot_eq cur (Single y))
                    else True)) other
   \<Longrightarrow> merge_check sd other = None"
  by (induction sd other rule: merge_check.induct)
     (auto simp: all_single_Cons is_unique_item_def split: option.splits)

text \<open>
  What \<^verbatim>\<open>merge\<close> does with the fields of an entry \<open>b\<close> whose fields hold one item each,
  when no field of \<open>b\<close> of Unique kind is in conflict with \<open>a\<close>: nothing is raised; a field
  that \<open>a\<close> lacks is inserted (after the fields of \<open>a\<close>, in the order of \<open>b\<close>); a field that
  \<open>a\<close> has and whose item in \<open>b\<close> has the Redundant Storage token becomes the list made of
  what \<open>a\<close> stored (as a list already, or promoted to one) followed by the item of \<open>b\<close>; a
  field that \<open>a\<close> has and whose item has any other token keeps the content of \<open>a\<close>. The
  other fields of \<open>a\<close> and its flag are unchanged.
\<close>

lemma merge_policy:
  assumes "all_single (data b)" and "distinct (dict_keys (data b))" and "no_unique_conflict a b"
  shows "snd (merge a b) = None
     \<and> unique (fst (merge a b)) = unique a
     \<and> dict_keys (data (fst (merge a b)))
         = dict_keys (data a) @ filter (\<lambda>k. k \<notin> set (dict_keys (data a))) (dict_keys (data b))
     \<and> (\<forall>d y. dict_get (data b) d = Some (Single y) \<longrightarrow>
           dict_get (data (fst (merge a b))) d =
             (case dict_get (data a) d of
                None \<Rightarrow> Some (Single y)
              | Some cur \<Rightarrow>
                  if isinstance_RedundantStorageToken (token_type (delimiter y))
                  then Some (Many (union cur @ [y])) else Some cur))
     \<and> (\<forall>d. dict_get (data b) d = None \<longrightarrow>
           dict_get (data (fst (merge a b))) d = dict_get (data a) d)"
proof -
  have c: "merge_check (data a) (data b) = None"
    using assms(1,3) by (simp add: no_unique_conflict_def merge_check_None)
  have f: "data (fst (merge a b)) = fst (merge_apply (data a) (data b))"
    using c by (cases "merge_apply (data a) (data b)") (simp add: merge_def)
  have s: "snd (merge a b) = snd (merge_apply (data a) (data b))"
    using c by (cases "merge_apply (data a) (data b)") (simp add: merge_def)
  have u: "unique (fst (merge a b)) = unique a"
    using c by (cases "merge_apply (data a) (data b)") (simp add: merge_def)
  have l: "dict_get (data (fst (merge a b))) k =
     (case dict_get (data b) k of
        None \<Rightarrow> dict_get (data a) k
      | Some s \<Rightarrow>
          (case dict_get (data a) k of
             None \<Rightarrow> Some s
           | Some cur \<Rightarrow>
               (case s of
                  Single y \<Rightarrow>
                    if isinstance_RedundantStorageToken (token_type (delimiter y))
                    then Some (Many (union cur @ [y])) else Some cur
                | Many xs \<Rightarrow> Some cur)))" for k
    unfolding f using assms(1,2) by (rule merge_apply_lookup)
  have k: "dict_keys (data (fst (merge a b)))
         = dict_keys (data a) @ filter (\<lambda>k. k \<notin> set (dict_keys (data a))) (dict_keys (data b))"
    unfolding f using assms(1,2) by (rule merge_apply_keys)
  have n: "snd (merge a b) = None"
    unfolding s using assms(1) by (rule merge_apply_all_single)
  show ?thesis
    using n u k by (auto simp: l split: option.splits)
qed

text \<open>
  The conflict of two entries that hold the image ids 1 and 2.
\<close>

lemma merge_conflict_example:
  "dict_get (data (DataEntry_init [image_id_1, image_name_cat])) ''IMAGE_ID'' = Some (Single image_id_1)
   \<and> dict_get (data (DataEntry_init [image_id_2, class_cat])) ''IMAGE_ID'' = Some (Single image_id_2)
   \<and> is_unique_item image_id_2
   \<and> item_value image_id_1 \<noteq> item_value image_id_2
   \<and> all_single (data (DataEntry_init [image_id_2, class_cat]))
   \<and> merge (DataEntry_init [image_id_1, image_name_cat]) (DataEntry_init [image_id_2, class_cat])
       = (DataEntry_init [image_id_1, image_name_cat],
          Some (ConflictError (Single image_id_1) image_id_2))"
proof -
  have h5: "all_single (data (DataEntry_init [image_id_2, class_cat]))"
    by (simp add: all_single_def dict_values_def DataEntry_init_def example_defs)
  have h1: "dict_get (data (DataEntry_init [image_id_1, image_name_cat])) ''IMAGE_ID''
              = Some (Single image_id_1)"
    by (simp add: DataEntry_init_def dict_get_def example_defs)
  have h2: "dict_get (data (DataEntry_init [image_id_2, class_cat])) ''IMAGE_ID''
              = Some (Single image_id_2)"
    by (simp add: DataEntry_init_def dict_get_def example_defs)
  have h3: "is_unique_item image_id_2"
    by (simp add: is_unique_item_def example_defs)
  have v: "item_value image_id_1 \<noteq> item_value image_id_2"
    by (simp add: example_defs)
  have h4: "\<not> slot_eq (Single image_id_1) (Single image_id_2)"
    using v by (rule differing_values_not_eq)
  have m: "merge (DataEntry_init [image_id_1, image_name_cat]) (DataEntry_init [image_id_2, class_cat])
       = (DataEntry_init [image_id_1, image_name_cat],
          Some (ConflictError (Single image_id_1) image_id_2))"
    by (simp add: merge_def DataEntry_init_def dict_get_def DataItem_eq_def DataType_eq_def
        example_defs)
  show ?thesis
    using merge_conflict [OF h1 h2 h3 h4] h1 h2 h3 v h5 m by simp
qed

text \<open>
  Claim C2, at an input where the code departs from it. \<open>b\<close> is an entry made of an image
  set and the image id 2, into which an entry with a second image set was merged: its first
  field now holds the list of both image sets. \<open>a\<close> holds the image id 1. Both hold the
  field \<open>IMAGE_ID\<close>, of Unique kind, with differing values, and the claim asks for a
  \<open>ConflictError\<close> naming them. The first loop of \<^verbatim>\<open>merge\<close> reads \<^verbatim>\<open>item.delimiter\<close> on
  the list, which comes first, and raises \<^verbatim>\<open>AttributeError\<close>.
\<close>

theorem merge_conflict_failing_input:
  "snd (merge (DataEntry_init [set_train, image_id_2]) (DataEntry_init [set_val])) = None
   \<and> dict_get (data (DataEntry_init [image_id_1])) ''IMAGE_ID'' = Some (Single image_id_1)
   \<and> dict_get (data (fst (merge (DataEntry_init [set_train, image_id_2]) (DataEntry_init [set_val]))))
        ''IMAGE_ID'' = Some (Single image_id_2)
   \<and> is_unique_item image_id_1 \<and> is_unique_item image_id_2
   \<and> desc (delimiter image_id_1) = desc (delimiter image_id_2)
   \<and> item_value image_id_1 \<noteq> item_value image_id_2
   \<and> merge (DataEntry_init [image_id_1])
        (fst (merge (DataEntry_init [set_train, image_id_2]) (DataEntry_init [set_val])))
       = (DataEntry_init [image_id_1], Some AttributeError)"
  by (simp add: merge_def DataEntry_init_def dict_get_def is_unique_item_def example_defs)

text \<open>
  An example: the image id is equal and kept, the class name of \<open>a\<close> is kept, the image
  sets are gathered in a list, the image name is inserted.
\<close>

lemma merge_policy_example:
  "all_single (data (DataEntry_init [image_id_1, class_dog, set_val, image_name_cat]))
   \<and> distinct (dict_keys (data (DataEntry_init [image_id_1, class_dog, set_val, image_name_cat])))
   \<and> no_unique_conflict (DataEntry_init [image_id_1, class_cat, set_train])
        (DataEntry_init [image_id_1, class_dog, set_val, image_name_cat])
   \<and> merge (DataEntry_init [image_id_1, class_cat, set_train])
        (DataEntry_init [image_id_1, class_dog, set_val, image_name_cat])
       = (\<lparr>unique = True,
           data = [(''IMAGE_ID'', Single image_id_1), (''CLASS_NAME'', Single class_cat),
                   (''IMAGE_SET'', Many [set_train, set_val]),
                   (''IMAGE_NAME'', Single image_name_cat)]\<rparr>, None)"
proof -
  let ?a = "DataEntry_init [image_id_1, class_cat, set_train]"
  let ?b = "DataEntry_init [image_id_1, class_dog, set_val, image_name_cat]"
  have h1: "all_single (data ?b)"
    by (simp add: all_single_def dict_values_def DataEntry_init_def example_defs)
  have h2: "distinct (dict_keys (data ?b))"
    by (simp add: dict_keys_def DataEntry_init_def example_defs)
  have h3: "no_unique_conflict ?a ?b"
    by (simp add: no_unique_conflict_def DataEntry_init_def dict_get_def is_unique_item_def
        DataItem_eq_def DataType_eq_def example_defs)
  have m: "merge ?a ?b
       = (\<lparr>unique = True,
           data = [(''IMAGE_ID'', Single image_id_1), (''CLASS_NAME'', Single class_cat),
                   (''IMAGE_SET'', Many [set_train, set_val]),
                   (''IMAGE_NAME'', Single image_name_cat)]\<rparr>, None)"
    by (simp add: merge_def DataEntry_init_def dict_get_def DataItem_eq_def DataType_eq_def
        example_defs)
  show ?thesis
    using merge_policy [OF h1 h2 h3] h1 h2 h3 m by simp
qed

text \<open>
  Claim C3, at an input where the code departs from it. \<open>b\<close> is an entry with one image set
  into which a second was merged, so that its field holds the list of both; \<open>a\<close> holds a
  class name only. No field of Unique kind is in conflict and \<open>a\<close> lacks the field of \<open>b\<close>,
  so the claim asks for the field to be inserted. \<^verbatim>\<open>merge\<close> raises \<^verbatim>\<open>AttributeError\<close> on
  the list and inserts nothing.
\<close>

theorem merge_policy_failing_input:
  "snd (merge (DataEntry_init [set_train]) (DataEntry_init [set_val])) = None
   \<and> no_unique_conflict (DataEntry_init [class_cat])
        (fst (merge (DataEntry_init [set_train]) (DataEntry_init [set_val])))
   \<and> dict_get (data (fst (merge (DataEntry_init [set_train]) (DataEntry_init [set_val]))))
        ''IMAGE_SET'' = Some (Many [set_train, set_val])
   \<and> dict_get (data (DataEntry_init [class_cat])) ''IMAGE_SET'' = None
   \<and> merge (DataEntry_init [class_cat])
        (fst (merge (DataEntry_init [set_train]) (DataEntry_init [set_val])))
       = (DataEntry_init [class_cat], Some AttributeError)"
  by (simp add: merge_def DataEntry_init_def dict_get_def no_unique_conflict_def example_defs)

section \<open>The flag of an entry\<close>

lemma DataEntry_init_unique: "unique (DataEntry_init items) = list_ex is_unique_item items"
  by (simp add: DataEntry_init_def list_ex_iff is_unique_item_def)

lemma init_fold_values:
  "(k, s) \<in> set (foldl (\<lambda>d item. dict_set d (desc (delimiter item)) (Single item)) d0 items)
     \<Longrightarrow> (k, s) \<in> set d0 \<or> (\<exists>item \<in> set items. s = Single item)"
proof (induction items arbitrary: d0)
  case Nil
  then show ?case by simp
next
  case (Cons x xs)
  have set_sub: "(k, s) \<in> set (dict_set d k' v) \<Longrightarrow> (k, s) \<in> set d \<or> s = v" for d k' v
    by (induction d) (auto split: if_splits)
  from Cons.IH [of "dict_set d0 (desc (delimiter x)) (Single x)"] Cons.prems
  show ?case by (auto dest: set_sub)
qed

lemma init_fold_get:
  "dict_get (foldl (\<lambda>d item. dict_set d (desc (delimiter item)) (Single item)) d0 items) k
     = (case find (\<lambda>item. desc (delimiter item) = k) (rev items) of
          None \<Rightarrow> dict_get d0 k
        | Some item \<Rightarrow> Some (Single item))"
proof (induction items rule: rev_induct)
  case Nil
  then show ?case by simp
next
  case (snoc x xs)
  then show ?case by (simp add: dict_get_dict_set)
qed

lemma registry_labels_distinct: "distinct (map desc DataTypes)"
  by (simp add: DataTypes_def IMAGE_SET_def IMAGE_SET_ID_def ABSOLUTE_FILE_def RELATIVE_FILE_def
      IMAGE_NAME_def IMAGE_ID_def CLASS_NAME_def CLASS_ID_def XMIN_def YMIN_def XMAX_def YMAX_def
      WIDTH_def HEIGHT_def GENERIC_def)

lemma registry_label_determines:
  "t \<in> set DataTypes \<Longrightarrow> t' \<in> set DataTypes \<Longrightarrow> desc t = desc t' \<Longrightarrow> t = t'"
  using registry_labels_distinct by (auto simp: distinct_map inj_on_def)

lemma contains_unique_iff:
  "contains_unique e \<longleftrightarrow> (\<exists>s \<in> set (dict_values (data e)). \<exists>item \<in> set (union s). is_unique_item item)"
  by (auto simp: contains_unique_def contained_items_def list_ex_iff)

lemma init_contains_unique_imp:
  assumes "contains_unique (DataEntry_init items)"
  shows "list_ex is_unique_item items"
proof -
  from assms obtain s item where s: "s \<in> set (dict_values (data (DataEntry_init items)))"
    and i: "item \<in> set (union s)" "is_unique_item item"
    by (auto simp: contains_unique_iff)
  from s obtain k where "(k, s) \<in> set (data (DataEntry_init items))"
    by (auto simp: dict_values_def)
  then have "\<exists>x \<in> set items. s = Single x"
    using init_fold_values [of k s "[]" items] by (simp add: DataEntry_init_def)
  with i show ?thesis by (auto simp: list_ex_iff)
qed

lemma find_rev_Some:
  "x \<in> set xs \<Longrightarrow> P x \<Longrightarrow> \<exists>y. find P (rev xs) = Some y \<and> y \<in> set xs \<and> P y"
proof (cases "find P (rev xs)")
  case None
  moreover assume "x \<in> set xs" "P x"
  ultimately show ?thesis by (auto simp: find_None_iff)
next
  case (Some y)
  then obtain i where "i < length (rev xs)" "P (rev xs ! i)" "y = rev xs ! i"
    by (auto simp: find_Some_iff)
  then have "y \<in> set (rev xs)" "P y" using nth_mem [of i "rev xs"] by simp_all
  with Some show ?thesis by simp
qed

lemma init_contains_unique:
  assumes r: "list_all (\<lambda>item. delimiter item \<in> set DataTypes) items"
    and u: "list_ex is_unique_item items"
  shows "contains_unique (DataEntry_init items)"
proof -
  from u obtain x where x: "x \<in> set items" "is_unique_item x" by (auto simp: list_ex_iff)
  then obtain y where y: "find (\<lambda>item. desc (delimiter item) = desc (delimiter x)) (rev items) = Some y"
    "y \<in> set items" "desc (delimiter y) = desc (delimiter x)"
    using find_rev_Some [of x items "\<lambda>item. desc (delimiter item) = desc (delimiter x)"] by auto
  from r x y have "delimiter y = delimiter x"
    by (auto simp: list_all_iff intro: registry_label_determines)
  with x have uy: "is_unique_item y" by (simp add: is_unique_item_def)
  have "dict_get (data (DataEntry_init items)) (desc (delimiter x)) = Some (Single y)"
    using y(1) by (simp add: DataEntry_init_def init_fold_get)
  then have "Single y \<in> set (dict_values (data (DataEntry_init items)))"
    by (auto simp: dict_get_def dict_values_def dest!: map_of_SomeD intro: rev_image_eqI)
  with uy show ?thesis by (force simp: contains_unique_iff)
qed

lemma apply_tokens_unique_unchanged: "unique (fst (apply_tokens a items)) = unique a"
  by (cases "apply_tokens_apply (data a) items")
     (simp add: apply_tokens_def split: option.splits)

lemma apply_pairing_loop_unique:
  "map unique (fst (apply_pairing_loop e cs)) = map unique cs"
proof (induction cs)
  case Nil
  then show ?case by simp
next
  case (Cons c cs)
  obtain c' exc where t: "apply_tokens c (dict_values (data e)) = (c', exc)"
    by (cases "apply_tokens c (dict_values (data e))")
  then have "unique c' = unique c"
    using apply_tokens_unique_unchanged [of c "dict_values (data e)"] by simp
  with Cons t show ?case
    by (cases "apply_pairing_loop e cs") (auto split: option.splits)
qed

text \<open>
  The flag \<^verbatim>\<open>unique\<close> is assigned by the constructor and by nothing else. At construction
  it is true exactly when some item given is of Unique kind; when the items have data types
  of the registry, that is exactly when the new entry contains an item of Unique kind.
  \<^verbatim>\<open>merge\<close>, \<^verbatim>\<open>apply_tokens\<close> and \<^verbatim>\<open>apply_pairing\<close> leave the flag of every entry as it
  was.
\<close>

lemma unique_flag_fixed_at_construction:
  "unique (DataEntry_init items) = list_ex is_unique_item items
   \<and> (list_all (\<lambda>item. delimiter item \<in> set DataTypes) items \<longrightarrow>
        unique (DataEntry_init items) = contains_unique (DataEntry_init items))
   \<and> unique (fst (merge a b)) = unique a
   \<and> unique (fst (apply_tokens a tokens)) = unique a
   \<and> map unique (fst (apply_pairing a cs)) = map unique cs"
proof -
  have "map unique (fst (apply_pairing a cs)) = map unique cs"
    by (simp add: apply_pairing_def apply_pairing_loop_unique)
  then show ?thesis
    using init_contains_unique [of items] init_contains_unique_imp [of items]
    by (auto simp: DataEntry_init_unique merge_unique_unchanged apply_tokens_unique_unchanged)
qed

text \<open>
  An example: an entry made of an image id and a class name, and the merge of an image id
  into an entry made of a class name.
\<close>

lemma unique_flag_fixed_at_construction_example:
  "list_all (\<lambda>item. delimiter item \<in> set DataTypes) [image_id_1, class_cat]
   \<and> unique (DataEntry_init [image_id_1, class_cat])
   \<and> contains_unique (DataEntry_init [image_id_1, class_cat])
   \<and> \<not> unique (fst (merge (DataEntry_init [class_cat]) (DataEntry_init [image_id_1])))"
proof -
  have r: "list_all (\<lambda>item. delimiter item \<in> set DataTypes) [image_id_1, class_cat]"
    by (simp add: DataTypes_def image_id_1_def class_cat_def)
  have u: "list_ex is_unique_item [image_id_1, class_cat]"
    by (simp add: is_unique_item_def example_defs)
  have n: "\<not> unique (DataEntry_init [class_cat])"
    by (simp add: DataEntry_init_def example_defs)
  note t = unique_flag_fixed_at_construction [of "[image_id_1, class_cat]"
        "DataEntry_init [class_cat]" "DataEntry_init [image_id_1]" "[]" "[]"]
  from t u have a: "unique (DataEntry_init [image_id_1, class_cat])" by blast
  from t r a have b: "contains_unique (DataEntry_init [image_id_1, class_cat])" by blast
  from t n have c: "\<not> unique (fst (merge (DataEntry_init [class_cat]) (DataEntry_init [image_id_1])))"
    by blast
  from r a b c show ?thesis by blast
qed

text \<open>
  Claim C5, at an input where the code departs from it. An entry constructed from a class
  name has the flag false. Merging an entry that holds an image id into it raises nothing
  and inserts the image id, an item of Unique kind; the flag is not recomputed and stays
  false, against the claim and against the docstring of the class (\<^verbatim>\<open>unique\<close>: true if
  this entry contains unique data).
\<close>

theorem unique_flag_failing_input:
  "snd (merge (DataEntry_init [class_cat]) (DataEntry_init [image_id_1])) = None
   \<and> contains_unique (fst (merge (DataEntry_init [class_cat]) (DataEntry_init [image_id_1])))
   \<and> \<not> unique (fst (merge (DataEntry_init [class_cat]) (DataEntry_init [image_id_1])))"
  by (simp add: merge_def DataEntry_init_def dict_get_def contains_unique_def contained_items_def
      dict_values_def is_unique_item_def example_defs)

section \<open>Pairing: when it is refused\<close>

lemma apply_tokens_check_not_invalid:
  "apply_tokens_check sd tokens \<noteq> Some InvalidOperationError"
  by (induction sd tokens rule: apply_tokens_check.induct) (auto split: option.splits)

lemma apply_tokens_apply_not_invalid:
  "snd (apply_tokens_apply sd tokens) \<noteq> Some InvalidOperationError"
  by (induction sd tokens rule: apply_tokens_apply.induct) (auto split: option.splits)

lemma apply_tokens_not_invalid:
  "snd (apply_tokens c tokens) \<noteq> Some InvalidOperationError"
  using apply_tokens_check_not_invalid [of "data c" tokens]
    apply_tokens_apply_not_invalid [of "data c" tokens]
  by (cases "apply_tokens_apply (data c) tokens")
     (auto simp: apply_tokens_def split: option.splits)

lemma apply_pairing_loop_not_invalid:
  "snd (apply_pairing_loop e cs) \<noteq> Some InvalidOperationError"
proof (induction cs)
  case Nil
  then show ?case by simp
next
  case (Cons c cs)
  then show ?case
    using apply_tokens_not_invalid [of c "dict_values (data e)"]
    by (cases "apply_pairing_loop e cs"; cases "apply_tokens c (dict_values (data e))")
       (auto split: option.splits)
qed

lemma apply_tokens_check_plain:
  "list_all (\<lambda>s. case s of Single x \<Rightarrow> \<not> is_unique_item x | Many xs \<Rightarrow> False) tokens
     \<Longrightarrow> apply_tokens_check sd tokens = None"
  by (induction sd tokens rule: apply_tokens_check.induct) (auto simp: is_unique_item_def)

lemma apply_tokens_apply_plain:
  "list_all (\<lambda>s. case s of Single x \<Rightarrow> True | Many xs \<Rightarrow> False) tokens
     \<Longrightarrow> snd (apply_tokens_apply sd tokens) = None"
  by (induction sd tokens rule: apply_tokens_apply.induct) (auto split: option.splits)

lemma apply_tokens_plain:
  assumes "list_all (\<lambda>s. case s of Single x \<Rightarrow> \<not> is_unique_item x | Many xs \<Rightarrow> False) tokens"
  shows "snd (apply_tokens c tokens) = None"
proof -
  from assms have "list_all (\<lambda>s. case s of Single x \<Rightarrow> True | Many xs \<Rightarrow> False) tokens"
    by (auto simp: list_all_iff split: slot.splits)
  then have "snd (apply_tokens_apply (data c) tokens) = None"
    by (rule apply_tokens_apply_plain)
  with apply_tokens_check_plain [OF assms, of "data c"] show ?thesis
    by (cases "apply_tokens_apply (data c) tokens") (simp add: apply_tokens_def)
qed

lemma apply_pairing_loop_plain:
  assumes "list_all (\<lambda>s. case s of Single x \<Rightarrow> \<not> is_unique_item x | Many xs \<Rightarrow> False)
             (dict_values (data e))"
  shows "snd (apply_pairing_loop e cs) = None"
proof (induction cs)
  case Nil
  then show ?case by simp
next
  case (Cons c cs)
  then show ?case
    using apply_tokens_plain [OF assms, of c]
    by (cases "apply_pairing_loop e cs"; cases "apply_tokens c (dict_values (data e))")
       (auto split: option.splits)
qed

lemma plain_values:
  assumes "all_single (data e)" and "\<not> contains_unique e"
  shows "list_all (\<lambda>s. case s of Single x \<Rightarrow> \<not> is_unique_item x | Many xs \<Rightarrow> False)
           (dict_values (data e))"
  using assms
  by (auto simp: all_single_def contains_unique_iff list_all_iff split: slot.splits)

text \<open>
  \<open>e.apply_pairing(entries)\<close> raises the \<open>InvalidOperationError\<close> (the \<^verbatim>\<open>ValueError\<close> of
  line 238) exactly when the flag of \<open>e\<close> is true, and then no entry is touched. When the
  flag is false and every field of \<open>e\<close> holds one item, none of them of Unique kind, no
  error is raised at all.
\<close>

lemma apply_pairing_errors:
  "(snd (apply_pairing e cs) = Some InvalidOperationError \<longleftrightarrow> unique e)
   \<and> (unique e \<longrightarrow> fst (apply_pairing e cs) = cs)
   \<and> (\<not> unique e \<and> all_single (data e) \<and> \<not> contains_unique e \<longrightarrow> snd (apply_pairing e cs) = None)"
  using apply_pairing_loop_not_invalid [of e cs] apply_pairing_loop_plain [OF plain_values, of e cs]
  by (auto simp: apply_pairing_def)

text \<open>
  An example: an entry with an image id (the flag is true), and a pair of a class name and
  a class id (the flag is false), which is broadcast onto the entry that holds the same
  class id.
\<close>

lemma apply_pairing_errors_example:
  "unique (DataEntry_init [image_id_1, class_cat])
   \<and> apply_pairing (DataEntry_init [image_id_1, class_cat]) [DataEntry_init [class_cat]]
       = ([DataEntry_init [class_cat]], Some InvalidOperationError)
   \<and> \<not> unique (DataEntry_init [class_cat, class_id_1])
   \<and> all_single (data (DataEntry_init [class_cat, class_id_1]))
   \<and> \<not> contains_unique (DataEntry_init [class_cat, class_id_1])
   \<and> apply_pairing (DataEntry_init [class_cat, class_id_1])
        [DataEntry_init [image_id_1, class_id_1], DataEntry_init [image_id_2]]
       = ([DataEntry_init [image_id_1, class_id_1, class_cat], DataEntry_init [image_id_2]], None)"
proof -
  have u: "unique (DataEntry_init [image_id_1, class_cat])"
    by (simp add: DataEntry_init_def example_defs)
  have n: "\<not> unique (DataEntry_init [class_cat, class_id_1])"
    by (simp add: DataEntry_init_def example_defs)
  have s: "all_single (data (DataEntry_init [class_cat, class_id_1]))"
    by (simp add: all_single_def dict_values_def DataEntry_init_def example_defs)
  have c: "\<not> contains_unique (DataEntry_init [class_cat, class_id_1])"
    by (simp add: contains_unique_def contained_items_def dict_values_def is_unique_item_def
        DataEntry_init_def example_defs)
  have p1: "apply_pairing (DataEntry_init [image_id_1, class_cat]) [DataEntry_init [class_cat]]
       = ([DataEntry_init [class_cat]], Some InvalidOperationError)"
    using u by (simp add: apply_pairing_def)
  have p2: "apply_pairing (DataEntry_init [class_cat, class_id_1])
        [DataEntry_init [image_id_1, class_id_1], DataEntry_init [image_id_2]]
       = ([DataEntry_init [image_id_1, class_id_1, class_cat], DataEntry_init [image_id_2]], None)"
    by (simp add: apply_pairing_def pairing_match_def apply_tokens_def dict_values_def
        dict_get_def DataItem_eq_def DataType_eq_def DataEntry_init_def example_defs)
  show ?thesis
    using apply_pairing_errors [of "DataEntry_init [image_id_1, class_cat]" "[DataEntry_init [class_cat]]"]
      apply_pairing_errors [of "DataEntry_init [class_cat, class_id_1]"
        "[DataEntry_init [image_id_1, class_id_1], DataEntry_init [image_id_2]]"]
      u n s c p1 p2
    by simp
qed

text \<open>
  Claim C6, at two inputs where the code departs from it: the flag of \<open>e\<close> is false and an
  error is raised all the same. In the first, \<open>e\<close> is made of a class name and an image
  set, and a second image set was merged into it, so that a field of \<open>e\<close> holds a list; the
  candidate holds the class name, \<open>e\<close> is broadcast onto it, and \<^verbatim>\<open>apply_tokens\<close> raises
  \<^verbatim>\<open>AttributeError\<close> on the list. In the second, \<open>e\<close> is made of a class name and an image
  id was merged into it, which leaves the flag false; the candidate holds the class name,
  and \<^verbatim>\<open>apply_tokens\<close> raises \<^verbatim>\<open>KeyError\<close> on the image id that the candidate lacks.
\<close>

theorem apply_pairing_failing_input:
  "snd (merge (DataEntry_init [class_cat, set_train]) (DataEntry_init [set_val])) = None
   \<and> \<not> unique (fst (merge (DataEntry_init [class_cat, set_train]) (DataEntry_init [set_val])))
   \<and> apply_pairing (fst (merge (DataEntry_init [class_cat, set_train]) (DataEntry_init [set_val])))
        [DataEntry_init [class_cat]]
       = ([DataEntry_init [class_cat]], Some AttributeError)
   \<and> snd (merge (DataEntry_init [class_cat]) (DataEntry_init [image_id_1])) = None
   \<and> \<not> unique (fst (merge (DataEntry_init [class_cat]) (DataEntry_init [image_id_1])))
   \<and> apply_pairing (fst (merge (DataEntry_init [class_cat]) (DataEntry_init [image_id_1])))
        [DataEntry_init [class_cat]]
       = ([DataEntry_init [class_cat]], Some (KeyError ''IMAGE_ID''))"
  by (simp add: merge_def apply_pairing_def pairing_match_def apply_tokens_def dict_values_def
      dict_get_def DataItem_eq_def DataType_eq_def DataEntry_init_def example_defs)

section \<open>Pairing: which entries receive the items\<close>

lemma apply_pairing_loop_length: "length (fst (apply_pairing_loop e cs)) = length cs"
proof (induction cs)
  case Nil
  then show ?case by simp
next
  case (Cons c cs)
  then show ?case
    by (cases "apply_pairing_loop e cs"; cases "apply_tokens c (dict_values (data e))")
       (auto split: option.splits)
qed

lemma apply_pairing_loop_no_match:
  "i < length cs \<Longrightarrow> \<not> pairing_match e (cs ! i) \<Longrightarrow> fst (apply_pairing_loop e cs) ! i = cs ! i"
proof (induction cs arbitrary: i)
  case Nil
  then show ?case by simp
next
  case (Cons c cs)
  then show ?case
    by (cases "apply_pairing_loop e cs"; cases "apply_tokens c (dict_values (data e))"; cases i)
       (auto split: option.splits)
qed

lemma apply_pairing_loop_match:
  "snd (apply_pairing_loop e cs) = None \<Longrightarrow> i < length cs \<Longrightarrow> pairing_match e (cs ! i)
     \<Longrightarrow> apply_tokens (cs ! i) (dict_values (data e)) = (fst (apply_pairing_loop e cs) ! i, None)"
proof (induction cs arbitrary: i)
  case Nil
  then show ?case by simp
next
  case (Cons c cs)
  then show ?case
    by (cases "apply_pairing_loop e cs"; cases "apply_tokens c (dict_values (data e))"; cases i)
       (auto split: option.splits if_splits)
qed

lemma single_slots_values:
  "list_all (\<lambda>s. case s of Single x \<Rightarrow> True | Many xs \<Rightarrow> False) vs
     \<Longrightarrow> map Single (concat (map union vs)) = vs"
  by (induction vs) (auto split: slot.splits)

lemma all_single_values:
  "all_single d \<Longrightarrow> dict_values d = map Single (concat (map union (dict_values d)))"
  by (simp add: all_single_def single_slots_values)

lemma pairing_match_single:
  assumes "all_single (data e)" and "all_single (data c)"
  shows "pairing_match e c = shares_item e c"
proof -
  have e: "dict_values (data e) = map Single (contained_items e)"
    using all_single_values [OF assms(1)] by (simp add: contained_items_def)
  have c: "dict_values (data c) = map Single (contained_items c)"
    using all_single_values [OF assms(2)] by (simp add: contained_items_def)
  show ?thesis
    unfolding pairing_match_def shares_item_def e c
    by (auto simp: list_ex_iff DataItem_eq_def DataType_eq_def)
qed

lemma shares_item_value: "shares_item e c \<Longrightarrow> shares_value e c"
  by (auto simp: shares_item_def shares_value_def list_ex_iff)

lemma find_distinct_label:
  "distinct (map f xs) \<Longrightarrow> x \<in> set xs \<Longrightarrow> find (\<lambda>y. f y = f x) xs = Some x"
  by (induction xs) (auto simp: rev_image_eqI)

lemma find_no_label: "k \<notin> f ` set xs \<Longrightarrow> find (\<lambda>y. f y = k) xs = None"
  by (auto simp: find_None_iff)

lemma apply_tokens_apply_lookup:
  "distinct (map (\<lambda>x. desc (delimiter x)) xs) \<Longrightarrow>
   dict_get (fst (apply_tokens_apply sd (map Single xs))) k =
     (case find (\<lambda>x. desc (delimiter x) = k) xs of
        None \<Rightarrow> dict_get sd k
      | Some x \<Rightarrow>
          (case dict_get sd k of
             None \<Rightarrow> Some (Single x)
           | Some cur \<Rightarrow>
               if isinstance_RedundantStorageToken (token_type (delimiter x))
               then Some (Many (union cur @ [x])) else Some cur))"
proof (induction xs arbitrary: sd)
  case Nil
  then show ?case by simp
next
  case (Cons x xs)
  from Cons.prems have d: "distinct (map (\<lambda>x. desc (delimiter x)) xs)"
    and n: "desc (delimiter x) \<notin> (\<lambda>x. desc (delimiter x)) ` set xs"
    by simp_all
  have f: "find (\<lambda>y. desc (delimiter y) = desc (delimiter x)) xs = None"
    using n by (rule find_no_label)
  show ?case
  proof (cases "k = desc (delimiter x)")
    case True
    then show ?thesis
      using Cons.IH [OF d] f
      by (auto simp: dict_get_dict_set split: option.splits)
  next
    case False
    then have "desc (delimiter x) \<noteq> k" by simp
    then show ?thesis
      using Cons.IH [OF d]
      by (auto simp: dict_get_dict_set split: option.splits)
  qed
qed

lemma apply_tokens_data:
  "apply_tokens c tokens = (c', None) \<Longrightarrow> data c' = fst (apply_tokens_apply (data c) tokens)"
  by (cases "apply_tokens_apply (data c) tokens")
     (auto simp: apply_tokens_def split: option.splits)

lemma apply_tokens_effect:
  assumes s: "all_single (data e)"
    and d: "distinct (map (\<lambda>x. desc (delimiter x)) (contained_items e))"
    and a: "apply_tokens c (dict_values (data e)) = (c', None)"
  shows "(\<forall>x \<in> set (contained_items e).
            dict_get (data c') (desc (delimiter x)) =
              (case dict_get (data c) (desc (delimiter x)) of
                 None \<Rightarrow> Some (Single x)
               | Some cur \<Rightarrow>
                   if isinstance_RedundantStorageToken (token_type (delimiter x))
                   then Some (Many (union cur @ [x])) else Some cur))
       \<and> (\<forall>k. k \<notin> (\<lambda>x. desc (delimiter x)) ` set (contained_items e) \<longrightarrow>
            dict_get (data c') k = dict_get (data c) k)"
proof -
  have v: "dict_values (data e) = map Single (contained_items e)"
    using all_single_values [OF s] by (simp add: contained_items_def)
  have l: "dict_get (data c') k =
     (case find (\<lambda>x. desc (delimiter x) = k) (contained_items e) of
        None \<Rightarrow> dict_get (data c) k
      | Some x \<Rightarrow>
          (case dict_get (data c) k of
             None \<Rightarrow> Some (Single x)
           | Some cur \<Rightarrow>
               if isinstance_RedundantStorageToken (token_type (delimiter x))
               then Some (Many (union cur @ [x])) else Some cur))" for k
    unfolding apply_tokens_data [OF a] v using d by (rule apply_tokens_apply_lookup)
  show ?thesis
  proof (intro conjI ballI allI impI)
    fix x assume "x \<in> set (contained_items e)"
    with d have "find (\<lambda>y. desc (delimiter y) = desc (delimiter x)) (contained_items e) = Some x"
      by (rule find_distinct_label)
    then show "dict_get (data c') (desc (delimiter x)) =
              (case dict_get (data c) (desc (delimiter x)) of
                 None \<Rightarrow> Some (Single x)
               | Some cur \<Rightarrow>
                   if isinstance_RedundantStorageToken (token_type (delimiter x))
                   then Some (Many (union cur @ [x])) else Some cur)"
      by (simp add: l)
  next
    fix k assume "k \<notin> (\<lambda>x. desc (delimiter x)) ` set (contained_items e)"
    then have "find (\<lambda>y. desc (delimiter y) = k) (contained_items e) = None"
      by (rule find_no_label)
    then show "dict_get (data c') k = dict_get (data c) k"
      by (simp add: l)
  qed
qed

lemma slot_eq_shares_value:
  assumes "slot_eq v s" and "s \<noteq> Many []"
  shows "\<exists>x \<in> set (union s). \<exists>y \<in> set (union v). item_value y = item_value x"
proof (cases s)
  case (Single x)
  with assms obtain y where "v = Single y" "DataItem_eq y x" by (cases v) auto
  with Single show ?thesis by (auto simp: DataItem_eq_def)
next
  case (Many xs)
  with assms obtain ys where v: "v = Many ys" and l: "list_all2 DataItem_eq ys xs"
    by (cases v) auto
  from Many assms obtain x xs' where xs: "xs = x # xs'" by (cases xs) auto
  with l obtain y ys' where "ys = y # ys'" "DataItem_eq y x" by (cases ys) auto
  with Many v xs show ?thesis by (auto simp: DataItem_eq_def)
qed

lemma pairing_match_shares_value:
  assumes "Many [] \<notin> set (dict_values (data e))" and "pairing_match e c"
  shows "shares_value e c"
proof -
  from assms(2) obtain s v where s: "s \<in> set (dict_values (data e))"
    and v: "v \<in> set (dict_values (data c))" and q: "slot_eq v s"
    by (auto simp: pairing_match_def list_ex_iff)
  from s assms(1) have "s \<noteq> Many []" by auto
  with q obtain x y where "x \<in> set (union s)" "y \<in> set (union v)" "item_value y = item_value x"
    using slot_eq_shares_value by blast
  with s v show ?thesis
    by (auto simp: shares_value_def contained_items_def list_ex_iff)
qed

lemma apply_pairing_loop_only_broadcast:
  "i < length cs \<Longrightarrow>
   fst (apply_pairing_loop e cs) ! i = cs ! i
   \<or> (pairing_match e (cs ! i)
      \<and> fst (apply_pairing_loop e cs) ! i = fst (apply_tokens (cs ! i) (dict_values (data e))))"
proof (induction cs arbitrary: i)
  case Nil
  then show ?case by simp
next
  case (Cons c cs)
  then show ?case
    by (cases "apply_pairing_loop e cs"; cases "apply_tokens c (dict_values (data e))"; cases i)
       (auto split: option.splits)
qed

text \<open>
  Claim C7, as amended. Let the flag of \<open>e\<close> be false, and let the candidates be the
  entries passed to \<open>e.apply_pairing\<close>. The call keeps their number and order. A candidate
  changes only by the broadcast, that is by \<^verbatim>\<open>apply_tokens\<close> with all the field contents of
  \<open>e\<close>, and only if the test of line 241 matches it: a candidate that the test does not
  match is left unchanged. Whenever the call raises nothing, the candidates that the test
  matches are exactly those that were broadcast onto: each of them is what \<^verbatim>\<open>apply_tokens\<close>
  makes of it, and the others are as they were. The test matches when a field content of
  \<open>e\<close> equals (\<^verbatim>\<open>==\<close>) a field content of the candidate: when the fields of both hold one
  item each, exactly when an item of \<open>e\<close> has the same label and the same value as an item
  of the candidate. Sharing a value is necessary for a match (no field holding an empty
  list), not sufficient. The broadcast itself, when the fields of \<open>e\<close> hold one item each
  under distinct labels and \<^verbatim>\<open>apply_tokens\<close> raises nothing: an item of \<open>e\<close> whose field the
  candidate lacks is inserted; where the candidate has the field, an item with the
  Redundant Storage token is appended to what is stored, promoted to a list, and an item
  with another token leaves the stored content; the other fields are unchanged.
\<close>

theorem pairing_broadcast:
  assumes "\<not> unique e"
  shows "length (fst (apply_pairing e cs)) = length cs
     \<and> (\<forall>i<length cs. \<not> pairing_match e (cs ! i) \<longrightarrow> fst (apply_pairing e cs) ! i = cs ! i)
     \<and> (\<forall>i<length cs.
          fst (apply_pairing e cs) ! i = cs ! i
          \<or> (pairing_match e (cs ! i)
             \<and> fst (apply_pairing e cs) ! i = fst (apply_tokens (cs ! i) (dict_values (data e)))))
     \<and> (snd (apply_pairing e cs) = None \<longrightarrow>
          (\<forall>i<length cs. pairing_match e (cs ! i) \<longrightarrow>
             apply_tokens (cs ! i) (dict_values (data e)) = (fst (apply_pairing e cs) ! i, None)))
     \<and> (\<forall>c. all_single (data e) \<and> all_single (data c) \<longrightarrow> pairing_match e c = shares_item e c)
     \<and> (\<forall>c. Many [] \<notin> set (dict_values (data e)) \<and> \<not> shares_value e c \<longrightarrow> \<not> pairing_match e c)
     \<and> (all_single (data e) \<and> distinct (map (\<lambda>x. desc (delimiter x)) (contained_items e)) \<longrightarrow>
          (\<forall>c c'. apply_tokens c (dict_values (data e)) = (c', None) \<longrightarrow>
             (\<forall>x \<in> set (contained_items e).
                dict_get (data c') (desc (delimiter x)) =
                  (case dict_get (data c) (desc (delimiter x)) of
                     None \<Rightarrow> Some (Single x)
                   | Some cur \<Rightarrow>
                       if isinstance_RedundantStorageToken (token_type (delimiter x))
                       then Some (Many (union cur @ [x])) else Some cur))
             \<and> (\<forall>k. k \<notin> (\<lambda>x. desc (delimiter x)) ` set (contained_items e) \<longrightarrow>
                  dict_get (data c') k = dict_get (data c) k)))"
proof -
  have p: "apply_pairing e cs = apply_pairing_loop e cs"
    using assms by (simp add: apply_pairing_def)
  have a: "length (fst (apply_pairing e cs)) = length cs"
    unfolding p by (rule apply_pairing_loop_length)
  have b: "\<forall>i<length cs. \<not> pairing_match e (cs ! i) \<longrightarrow> fst (apply_pairing e cs) ! i = cs ! i"
    unfolding p using apply_pairing_loop_no_match [of _ cs e] by blast
  have o: "\<forall>i<length cs.
          fst (apply_pairing e cs) ! i = cs ! i
          \<or> (pairing_match e (cs ! i)
             \<and> fst (apply_pairing e cs) ! i = fst (apply_tokens (cs ! i) (dict_values (data e))))"
    unfolding p using apply_pairing_loop_only_broadcast [of _ cs e] by blast
  have c: "snd (apply_pairing e cs) = None \<longrightarrow>
          (\<forall>i<length cs. pairing_match e (cs ! i) \<longrightarrow>
             apply_tokens (cs ! i) (dict_values (data e)) = (fst (apply_pairing e cs) ! i, None))"
    unfolding p using apply_pairing_loop_match [of e cs] by blast
  have d: "\<forall>c. all_single (data e) \<and> all_single (data c) \<longrightarrow> pairing_match e c = shares_item e c"
    using pairing_match_single [of e] by blast
  have f: "\<forall>c. Many [] \<notin> set (dict_values (data e)) \<and> \<not> shares_value e c \<longrightarrow> \<not> pairing_match e c"
    using pairing_match_shares_value [of e] by blast
  have g: "all_single (data e) \<and> distinct (map (\<lambda>x. desc (delimiter x)) (contained_items e)) \<longrightarrow>
          (\<forall>c c'. apply_tokens c (dict_values (data e)) = (c', None) \<longrightarrow>
             (\<forall>x \<in> set (contained_items e).
                dict_get (data c') (desc (delimiter x)) =
                  (case dict_get (data c) (desc (delimiter x)) of
                     None \<Rightarrow> Some (Single x)
                   | Some cur \<Rightarrow>
                       if isinstance_RedundantStorageToken (token_type (delimiter x))
                       then Some (Many (union cur @ [x])) else Some cur))
             \<and> (\<forall>k. k \<notin> (\<lambda>x. desc (delimiter x)) ` set (contained_items e) \<longrightarrow>
                  dict_get (data c') k = dict_get (data c) k))"
    using apply_tokens_effect [of e] by blast
  from a b o c d f g show ?thesis by (intro conjI)
qed

text \<open>
  Claim C7 as amended, on the pair of a class name and a class id, and two candidates: the
  first holds the same class id and receives the class name, the second holds neither and
  is left as it was.
\<close>

theorem pairing_broadcast_witness:
  "\<not> unique (DataEntry_init [class_cat, class_id_1])
   \<and> all_single (data (DataEntry_init [class_cat, class_id_1]))
   \<and> all_single (data (DataEntry_init [image_id_1, class_id_1]))
   \<and> Many [] \<notin> set (dict_values (data (DataEntry_init [class_cat, class_id_1])))
   \<and> distinct (map (\<lambda>x. desc (delimiter x)) (contained_items (DataEntry_init [class_cat, class_id_1])))
   \<and> shares_item (DataEntry_init [class_cat, class_id_1]) (DataEntry_init [image_id_1, class_id_1])
   \<and> pairing_match (DataEntry_init [class_cat, class_id_1]) (DataEntry_init [image_id_1, class_id_1])
   \<and> \<not> shares_value (DataEntry_init [class_cat, class_id_1]) (DataEntry_init [image_id_2])
   \<and> \<not> pairing_match (DataEntry_init [class_cat, class_id_1]) (DataEntry_init [image_id_2])
   \<and> apply_pairing (DataEntry_init [class_cat, class_id_1])
        [DataEntry_init [image_id_1, class_id_1], DataEntry_init [image_id_2]]
       = ([DataEntry_init [image_id_1, class_id_1, class_cat], DataEntry_init [image_id_2]], None)
   \<and> apply_tokens (DataEntry_init [image_id_1, class_id_1])
        (dict_values (data (DataEntry_init [class_cat, class_id_1])))
       = (DataEntry_init [image_id_1, class_id_1, class_cat], None)
   \<and> dict_get (data (DataEntry_init [image_id_1, class_id_1, class_cat])) ''CLASS_NAME''
       = Some (Single class_cat)
   \<and> dict_get (data (DataEntry_init [image_id_1, class_id_1, class_cat])) ''CLASS_ID''
       = Some (Single class_id_1)"
proof -
  let ?e = "DataEntry_init [class_cat, class_id_1]"
  let ?c = "DataEntry_init [image_id_1, class_id_1]"
  let ?cs = "[?c, DataEntry_init [image_id_2]]"
  have n: "\<not> unique ?e"
    by (simp add: DataEntry_init_def example_defs)
  have s1: "all_single (data ?e)"
    by (simp add: all_single_def dict_values_def DataEntry_init_def example_defs)
  have s2: "all_single (data ?c)"
    by (simp add: all_single_def dict_values_def DataEntry_init_def example_defs)
  have ne: "Many [] \<notin> set (dict_values (data ?e))"
    by (simp add: dict_values_def DataEntry_init_def example_defs)
  have dl: "distinct (map (\<lambda>x. desc (delimiter x)) (contained_items ?e))"
    by (simp add: contained_items_def dict_values_def DataEntry_init_def example_defs)
  have si: "shares_item ?e ?c"
    by (simp add: shares_item_def contained_items_def dict_values_def DataEntry_init_def
        example_defs)
  have sv: "\<not> shares_value ?e (DataEntry_init [image_id_2])"
    by (simp add: shares_value_def contained_items_def dict_values_def DataEntry_init_def
        example_defs)
  have p: "apply_pairing ?e ?cs
       = ([DataEntry_init [image_id_1, class_id_1, class_cat], DataEntry_init [image_id_2]], None)"
    by (simp add: apply_pairing_def pairing_match_def apply_tokens_def dict_values_def
        dict_get_def DataItem_eq_def DataType_eq_def DataEntry_init_def example_defs)
  note t = pairing_broadcast [OF n, of ?cs]
  from t s1 s2 si have m1: "pairing_match ?e ?c" by blast
  from t ne sv have m2: "\<not> pairing_match ?e (DataEntry_init [image_id_2])" by blast
  from t have "snd (apply_pairing ?e ?cs) = None \<longrightarrow>
      (\<forall>i<length ?cs. pairing_match ?e (?cs ! i) \<longrightarrow>
         apply_tokens (?cs ! i) (dict_values (data ?e)) = (fst (apply_pairing ?e ?cs) ! i, None))"
    by (elim conjE)
  from this [rule_format, of 0] p m1
  have a: "apply_tokens ?c (dict_values (data ?e))
       = (DataEntry_init [image_id_1, class_id_1, class_cat], None)"
    by simp
  have cc: "class_cat \<in> set (contained_items ?e)" "class_id_1 \<in> set (contained_items ?e)"
    by (simp_all add: contained_items_def dict_values_def DataEntry_init_def example_defs)
  have g0: "dict_get (data ?c) (desc (delimiter class_cat)) = None"
    "dict_get (data ?c) (desc (delimiter class_id_1)) = Some (Single class_id_1)"
    by (simp_all add: dict_get_def DataEntry_init_def example_defs)
  have lb: "desc (delimiter class_cat) = ''CLASS_NAME''" "desc (delimiter class_id_1) = ''CLASS_ID''"
    "\<not> isinstance_RedundantStorageToken (token_type (delimiter class_id_1))"
    by (simp_all add: example_defs)
  from t s1 dl a
  have e: "\<forall>x \<in> set (contained_items ?e).
      dict_get (data (DataEntry_init [image_id_1, class_id_1, class_cat])) (desc (delimiter x)) =
        (case dict_get (data ?c) (desc (delimiter x)) of
           None \<Rightarrow> Some (Single x)
         | Some cur \<Rightarrow>
             if isinstance_RedundantStorageToken (token_type (delimiter x))
             then Some (Many (union cur @ [x])) else Some cur)"
    by blast
  from e [rule_format, OF cc(1)] g0(1) lb
  have r1: "dict_get (data (DataEntry_init [image_id_1, class_id_1, class_cat])) ''CLASS_NAME''
       = Some (Single class_cat)"
    by simp
  from e [rule_format, OF cc(2)] g0(2) lb
  have r2: "dict_get (data (DataEntry_init [image_id_1, class_id_1, class_cat])) ''CLASS_ID''
       = Some (Single class_id_1)"
    by simp
  show ?thesis
    using n s1 s2 ne dl si m1 sv m2 p a r1 r2 by (intro conjI)
qed

text \<open>
  Claim C7 as stated fails when the shared value stands under different labels: \<open>e\<close> holds
  the class id 1, the candidate holds the image id 1. They share the value \<open>1\<close>, and the
  candidate is left unchanged, although the broadcast would have added the class id.
\<close>

theorem pairing_broadcast_counterexample:
  "\<not> unique (DataEntry_init [class_id_1])
   \<and> shares_value (DataEntry_init [class_id_1]) (DataEntry_init [image_id_1])
   \<and> apply_pairing (DataEntry_init [class_id_1]) [DataEntry_init [image_id_1]]
       = ([DataEntry_init [image_id_1]], None)
   \<and> apply_tokens (DataEntry_init [image_id_1]) (dict_values (data (DataEntry_init [class_id_1])))
       = (DataEntry_init [image_id_1, class_id_1], None)
   \<and> DataEntry_init [image_id_1, class_id_1] \<noteq> DataEntry_init [image_id_1]"
  by (simp add: shares_value_def contained_items_def apply_pairing_def pairing_match_def
      apply_tokens_def dict_values_def dict_get_def DataItem_eq_def DataType_eq_def
      DataEntry_init_def example_defs)

section \<open>File names as identifiers\<close>

lemma unique_identifiers_list:
  "unique_identifiers = [ABSOLUTE_FILE, RELATIVE_FILE, IMAGE_NAME, IMAGE_ID]"
  by (simp add: unique_identifiers_def DataTypes_def IMAGE_SET_def IMAGE_SET_ID_def
      ABSOLUTE_FILE_def RELATIVE_FILE_def IMAGE_NAME_def IMAGE_ID_def CLASS_NAME_def CLASS_ID_def
      XMIN_def YMIN_def XMAX_def YMAX_def WIDTH_def HEIGHT_def GENERIC_def)

lemma get_unique_ids_loop_single:
  "list_all (\<lambda>s. case s of Single x \<Rightarrow> True | Many xs \<Rightarrow> False) vs \<Longrightarrow>
     get_unique_ids_loop acc vs = Inr (acc @ filter is_unique_item (concat (map union vs)))"
  by (induction acc vs rule: get_unique_ids_loop.induct) (auto simp: is_unique_item_def)

lemma get_unique_ids_single:
  "all_single (data e) \<Longrightarrow> get_unique_ids e = Inr (filter is_unique_item (contained_items e))"
  by (simp add: get_unique_ids_def all_single_def contained_items_def get_unique_ids_loop_single)

lemma filename_is_unique: "token_type (delimiter item) = FilenameToken \<Longrightarrow> is_unique_item item"
  by (simp add: is_unique_item_def)

lemma conflict_on_single_fields:
  assumes "all_single (data b)" and "dict_get (data a) d = Some s"
    and "dict_get (data b) d = Some (Single y)" and "is_unique_item y"
    and "\<not> slot_eq s (Single y)"
  shows "fst (merge a b) = a \<and> (\<exists>s' y'. snd (merge a b) = Some (ConflictError s' y'))"
proof -
  from assms(3) have "(d, Single y) \<in> set (data b)"
    by (simp add: dict_get_def map_of_SomeD)
  then have "merge_check (data a) (data b) \<noteq> None"
    using merge_check_conflict [of d y "data b" "data a" s] assms(2,4,5) by blast
  then obtain e where e: "merge_check (data a) (data b) = Some e" by auto
  then have m: "merge a b = (a, Some e)" by (simp add: merge_def)
  from e have "e \<noteq> AttributeError"
    using merge_check_single_not_attribute [OF assms(1), of "data a"] by auto
  with m merge_check_error [OF e] show ?thesis by auto
qed

text \<open>
  The Filename token is an instance of \<^verbatim>\<open>_UniqueToken\<close>, and \<open>ABSOLUTE_FILE\<close> and
  \<open>RELATIVE_FILE\<close> carry it. An entry constructed from items of which one has the Filename
  token has the flag \<^verbatim>\<open>unique\<close> true. \<^verbatim>\<open>get_unique_ids\<close>, on an entry whose fields hold
  one item each, returns every contained item that has the Filename token. \<^verbatim>\<open>merge\<close>
  applies the conflict check to a field whose item in \<open>b\<close> has the Filename token. The
  identifiers of \<^verbatim>\<open>merge_lists\<close> are \<open>ABSOLUTE_FILE\<close>, \<open>RELATIVE_FILE\<close>, \<open>IMAGE_NAME\<close>,
  \<open>IMAGE_ID\<close>, in this order.
\<close>

lemma filename_is_identity:
  "isinstance_UniqueToken FilenameToken
   \<and> token_type ABSOLUTE_FILE = FilenameToken \<and> token_type RELATIVE_FILE = FilenameToken
   \<and> (list_ex (\<lambda>item. token_type (delimiter item) = FilenameToken) items \<longrightarrow>
        unique (DataEntry_init items))
   \<and> (all_single (data e) \<and> item \<in> set (contained_items e)
        \<and> token_type (delimiter item) = FilenameToken \<longrightarrow>
        (\<exists>ids. get_unique_ids e = Inr ids \<and> item \<in> set ids))
   \<and> (all_single (data b) \<and> dict_get (data a) d = Some s \<and> dict_get (data b) d = Some (Single y)
        \<and> token_type (delimiter y) = FilenameToken \<and> \<not> slot_eq s (Single y) \<longrightarrow>
        fst (merge a b) = a \<and> (\<exists>s' y'. snd (merge a b) = Some (ConflictError s' y')))
   \<and> unique_identifiers = [ABSOLUTE_FILE, RELATIVE_FILE, IMAGE_NAME, IMAGE_ID]"
proof -
  have u: "list_ex (\<lambda>item. token_type (delimiter item) = FilenameToken) items \<longrightarrow>
        unique (DataEntry_init items)"
    by (force simp: DataEntry_init_def list_ex_iff)
  have g: "all_single (data e) \<and> item \<in> set (contained_items e)
        \<and> token_type (delimiter item) = FilenameToken \<longrightarrow>
        (\<exists>ids. get_unique_ids e = Inr ids \<and> item \<in> set ids)"
    by (auto simp: get_unique_ids_single filename_is_unique)
  have m: "all_single (data b) \<and> dict_get (data a) d = Some s \<and> dict_get (data b) d = Some (Single y)
        \<and> token_type (delimiter y) = FilenameToken \<and> \<not> slot_eq s (Single y) \<longrightarrow>
        fst (merge a b) = a \<and> (\<exists>s' y'. snd (merge a b) = Some (ConflictError s' y'))"
    using conflict_on_single_fields [of b a d s y] filename_is_unique [of y] by blast
  have t: "token_type ABSOLUTE_FILE = FilenameToken \<and> token_type RELATIVE_FILE = FilenameToken"
    by (simp add: ABSOLUTE_FILE_def RELATIVE_FILE_def)
  show ?thesis
    using u g m t unique_identifiers_list by simp
qed

text \<open>
  An example: an entry made of a file and a class name; the last line merges an entry that
  holds an image id and a file into a list where one entry holds the image id and a later
  one the file: it goes to the entry that holds the file.
\<close>

lemma filename_is_identity_example:
  "list_ex (\<lambda>item. token_type (delimiter item) = FilenameToken) [file_cat, class_cat]
   \<and> unique (DataEntry_init [file_cat, class_cat])
   \<and> all_single (data (DataEntry_init [file_cat, class_cat]))
   \<and> file_cat \<in> set (contained_items (DataEntry_init [file_cat, class_cat]))
   \<and> get_unique_ids (DataEntry_init [file_cat, class_cat]) = Inr [file_cat]
   \<and> all_single (data (DataEntry_init [file_dog]))
   \<and> merge (DataEntry_init [file_cat, class_cat]) (DataEntry_init [file_dog])
       = (DataEntry_init [file_cat, class_cat], Some (ConflictError (Single file_cat) file_dog))
   \<and> merge_lists [DataEntry_init [image_id_1], DataEntry_init [file_cat]]
        [DataEntry_init [image_id_1, file_cat, class_cat]]
       = Inr [DataEntry_init [image_id_1], DataEntry_init [file_cat, image_id_1, class_cat]]"
proof -
  let ?e = "DataEntry_init [file_cat, class_cat]"
  have h1: "list_ex (\<lambda>item. token_type (delimiter item) = FilenameToken) [file_cat, class_cat]"
    by (simp add: example_defs)
  have h2: "all_single (data ?e)"
    by (simp add: all_single_def dict_values_def DataEntry_init_def example_defs)
  have h3: "file_cat \<in> set (contained_items ?e)"
    by (simp add: contained_items_def dict_values_def DataEntry_init_def example_defs)
  have h4: "token_type (delimiter file_cat) = FilenameToken"
    by (simp add: example_defs)
  have h5: "all_single (data (DataEntry_init [file_dog]))"
    by (simp add: all_single_def dict_values_def DataEntry_init_def example_defs)
  have g: "get_unique_ids ?e = Inr [file_cat]"
    by (simp add: get_unique_ids_def dict_values_def DataEntry_init_def example_defs)
  have m: "merge ?e (DataEntry_init [file_dog])
       = (?e, Some (ConflictError (Single file_cat) file_dog))"
    by (simp add: merge_def DataEntry_init_def dict_get_def DataItem_eq_def DataType_eq_def
        example_defs)
  have l: "merge_lists [DataEntry_init [image_id_1], DataEntry_init [file_cat]]
        [DataEntry_init [image_id_1, file_cat, class_cat]]
       = Inr [DataEntry_init [image_id_1], DataEntry_init [file_cat, image_id_1, class_cat]]"
    by (simp add: merge_lists_def unique_identifiers_list merge_def DataEntry_init_def
        dict_get_def DataItem_eq_def DataType_eq_def example_defs)
  from filename_is_identity [of "[file_cat, class_cat]"] h1
  have u: "unique ?e" by blast
  show ?thesis
    using h1 u h2 h3 g h5 m l by simp
qed

text \<open>
  Claim C10, at two inputs where the code departs from it. An entry constructed from a
  class name has the flag false, and keeps it after an entry that holds a file was merged
  into it: it contains an item with the Filename token and its flag is false. And an entry
  made of a file and an image set, into which a second image set was merged, contains the
  file, but \<^verbatim>\<open>get_unique_ids\<close> does not return it: the loop reads \<^verbatim>\<open>item.delimiter\<close> on the
  list of image sets and raises \<^verbatim>\<open>AttributeError\<close>.
\<close>

theorem filename_flag_failing_input:
  "snd (merge (DataEntry_init [class_cat]) (DataEntry_init [file_cat])) = None
   \<and> file_cat \<in> set (contained_items (fst (merge (DataEntry_init [class_cat]) (DataEntry_init [file_cat]))))
   \<and> token_type (delimiter file_cat) = FilenameToken
   \<and> \<not> unique (fst (merge (DataEntry_init [class_cat]) (DataEntry_init [file_cat])))
   \<and> snd (merge (DataEntry_init [file_cat, set_train]) (DataEntry_init [set_val])) = None
   \<and> file_cat \<in> set (contained_items
         (fst (merge (DataEntry_init [file_cat, set_train]) (DataEntry_init [set_val]))))
   \<and> get_unique_ids (fst (merge (DataEntry_init [file_cat, set_train]) (DataEntry_init [set_val])))
       = Inl AttributeError"
  by (simp add: merge_def contained_items_def dict_values_def DataEntry_init_def dict_get_def
      get_unique_ids_def example_defs)

section \<open>Merging two lists of entries: the algorithm\<close>

lemma find_snoc:
  "find P (xs @ [x]) = (case find P xs of None \<Rightarrow> (if P x then Some x else None) | Some y \<Rightarrow> Some y)"
  by (induction xs) auto

lemma index_entries_step:
  "\<not> holds_list e d \<Longrightarrow>
   index_entries d ((i, e) # ies) m
     = index_entries d ies (case field_value e d of None \<Rightarrow> m | Some v \<Rightarrow> m(v \<mapsto> i))"
  by (auto simp: field_value_def holds_list_def split: option.splits slot.splits)

lemma index_entries_lookup:
  "list_all (\<lambda>(i, e). \<not> holds_list e d) ies \<Longrightarrow>
   index_entries d ies m
     = Inr (\<lambda>v. case find (\<lambda>(i, e). field_value e d = Some v) (rev ies) of
                  None \<Rightarrow> m v
                | Some (i, e) \<Rightarrow> Some i)"
proof (induction ies arbitrary: m)
  case Nil
  then show ?case by simp
next
  case (Cons p ies)
  obtain i e where p: "p = (i, e)" by (cases p)
  let ?m = "case field_value e d of None \<Rightarrow> m | Some v \<Rightarrow> m(v \<mapsto> i)"
  from Cons.prems p
  have r: "list_all (\<lambda>(i, e). \<not> holds_list e d) ies"
    and h: "\<not> holds_list e d"
    by simp_all
  have "(case find (\<lambda>(i, e). field_value e d = Some v) (rev ies) of
           None \<Rightarrow> ?m v | Some (i, e) \<Rightarrow> Some i)
      = (case find (\<lambda>(i, e). field_value e d = Some v) (rev ((i, e) # ies)) of
           None \<Rightarrow> m v | Some (i, e) \<Rightarrow> Some i)" for v
  proof (cases "find (\<lambda>(i, e). field_value e d = Some v) (rev ies)")
    case None
    then show ?thesis
      by (cases "field_value e d") (simp_all add: find_snoc)
  next
    case (Some q)
    then show ?thesis by (simp add: find_snoc)
  qed
  then show ?case
    unfolding p index_entries_step [OF h] Cons.IH [OF r] by simp
qed

lemma spec_lookup_alt:
  "spec_lookup base d
     = (\<lambda>v. case find (\<lambda>(i, e). field_value e d = Some v) (rev (enumerate 0 base)) of
              None \<Rightarrow> None
            | Some (i, e) \<Rightarrow> Some i)"
  by (auto simp: spec_lookup_def split: option.splits intro!: ext)

lemma index_entries_spec:
  assumes "list_all (\<lambda>e. \<not> holds_list e d) base"
  shows "index_entries d (enumerate 0 base) Map.empty = Inr (spec_lookup base d)"
proof -
  from assms have "list_all (\<lambda>(i, e). \<not> holds_list e d)
      (enumerate 0 base)"
    by (auto simp: list_all_iff in_set_enumerate_eq)
  then show ?thesis
    by (simp add: index_entries_lookup spec_lookup_alt)
qed

lemma spec_lookup_snoc:
  "spec_lookup (xs @ [x]) d v
     = (if field_value x d = Some v then Some (length xs) else spec_lookup xs d v)"
  by (simp add: spec_lookup_def enumerate_append_eq)

lemma spec_lookup_last:
  "spec_lookup base d v = Some i \<longleftrightarrow>
     i < length base \<and> field_value (base ! i) d = Some v
     \<and> (\<forall>j. i < j \<and> j < length base \<longrightarrow> field_value (base ! j) d \<noteq> Some v)"
proof (induction base rule: rev_induct)
  case Nil
  then show ?case by (simp add: spec_lookup_def)
next
  case (snoc x xs)
  have old: "field_value ((xs @ [x]) ! j) d = field_value (xs ! j) d" if "j < length xs" for j
    using that by (simp add: nth_append)
  have new: "field_value ((xs @ [x]) ! length xs) d = field_value x d"
    by simp
  show ?case
  proof (cases "field_value x d = Some v")
    case True
    then have l: "spec_lookup (xs @ [x]) d v = Some (length xs)"
      by (simp add: spec_lookup_snoc)
    show ?thesis
    proof
      assume "spec_lookup (xs @ [x]) d v = Some i"
      with l have e: "i = length xs" by simp
      have "\<not> (length xs < j \<and> j < length (xs @ [x]))" for j by simp
      with True e show "i < length (xs @ [x]) \<and> field_value ((xs @ [x]) ! i) d = Some v
         \<and> (\<forall>j. i < j \<and> j < length (xs @ [x]) \<longrightarrow> field_value ((xs @ [x]) ! j) d \<noteq> Some v)"
        by auto
    next
      assume r: "i < length (xs @ [x]) \<and> field_value ((xs @ [x]) ! i) d = Some v
         \<and> (\<forall>j. i < j \<and> j < length (xs @ [x]) \<longrightarrow> field_value ((xs @ [x]) ! j) d \<noteq> Some v)"
      have "i = length xs"
      proof (rule ccontr)
        assume "i \<noteq> length xs"
        with r have "i < length xs \<and> length xs < length (xs @ [x])" by simp
        with r have "field_value ((xs @ [x]) ! length xs) d \<noteq> Some v" by blast
        with True new show False by simp
      qed
      with l show "spec_lookup (xs @ [x]) d v = Some i" by simp
    qed
  next
    case False
    then have l: "spec_lookup (xs @ [x]) d v = spec_lookup xs d v"
      by (simp add: spec_lookup_snoc)
    show ?thesis
    proof
      assume "spec_lookup (xs @ [x]) d v = Some i"
      with l snoc have i: "i < length xs" "field_value (xs ! i) d = Some v"
        "\<forall>j. i < j \<and> j < length xs \<longrightarrow> field_value (xs ! j) d \<noteq> Some v"
        by simp_all
      have "field_value ((xs @ [x]) ! j) d \<noteq> Some v" if "i < j" "j < length (xs @ [x])" for j
      proof (cases "j < length xs")
        case True
        with i(3) that show ?thesis by (simp add: old)
      next
        case False
        with that have "j = length xs" by simp
        with \<open>field_value x d \<noteq> Some v\<close> show ?thesis by simp
      qed
      with i show "i < length (xs @ [x]) \<and> field_value ((xs @ [x]) ! i) d = Some v
         \<and> (\<forall>j. i < j \<and> j < length (xs @ [x]) \<longrightarrow> field_value ((xs @ [x]) ! j) d \<noteq> Some v)"
        by (simp add: old)
    next
      assume r: "i < length (xs @ [x]) \<and> field_value ((xs @ [x]) ! i) d = Some v
         \<and> (\<forall>j. i < j \<and> j < length (xs @ [x]) \<longrightarrow> field_value ((xs @ [x]) ! j) d \<noteq> Some v)"
      have "i \<noteq> length xs"
      proof
        assume "i = length xs"
        with r new False show False by simp
      qed
      with r have i: "i < length xs" by simp
      with r have v: "field_value (xs ! i) d = Some v" by (simp add: old)
      have "field_value (xs ! j) d \<noteq> Some v" if "i < j" "j < length xs" for j
      proof -
        from that have "i < j \<and> j < length (xs @ [x])" by simp
        with r have "field_value ((xs @ [x]) ! j) d \<noteq> Some v" by blast
        with that show ?thesis by (simp add: old)
      qed
      with i v snoc have "spec_lookup xs d v = Some i" by simp
      with l show "spec_lookup (xs @ [x]) d v = Some i" by simp
    qed
  qed
qed

lemma fold_hashmaps_get:
  "fold (\<lambda>t h. h(desc t \<mapsto> f (desc t))) ids h k
     = (if k \<in> desc ` set ids then Some (f k) else h k)"
  by (induction ids arbitrary: h) auto

lemma build_hashmaps_spec:
  "\<forall>t \<in> set ids. list_all (\<lambda>e. \<not> holds_list e (desc t)) base \<Longrightarrow>
   build_hashmaps ids base h
     = Inr (fold (\<lambda>t h. h(desc t \<mapsto> spec_lookup base (desc t))) ids h)"
  by (induction ids arbitrary: h) (simp_all add: index_entries_spec)

lemma spec_first_match_Nil: "spec_first_match base [] e = None"
  by (simp add: spec_first_match_def)

lemma spec_first_match_Cons:
  "spec_first_match base (t # ts) e
     = (case field_value e (desc t) of
          None \<Rightarrow> spec_first_match base ts e
        | Some v \<Rightarrow>
            (case spec_lookup base (desc t) v of
               None \<Rightarrow> spec_first_match base ts e
             | Some i \<Rightarrow> Some i))"
  by (simp add: spec_first_match_def split: option.splits)

lemma find_match_spec:
  "\<forall>t \<in> set ids. hashmaps (desc t) = Some (spec_lookup base (desc t)) \<Longrightarrow>
   \<forall>t \<in> set ids. \<not> holds_list e (desc t) \<Longrightarrow>
   find_match hashmaps ids e = Inr (spec_first_match base ids e)"
proof (induction ids)
  case Nil
  then show ?case by (simp add: spec_first_match_Nil)
next
  case (Cons t ts)
  then have ih: "find_match hashmaps ts e = Inr (spec_first_match base ts e)"
    and h: "hashmaps (desc t) = Some (spec_lookup base (desc t))"
    and n: "\<not> holds_list e (desc t)"
    by simp_all
  show ?case
  proof (cases "dict_get (data e) (desc t)")
    case None
    then show ?thesis
      by (simp add: ih spec_first_match_Cons field_value_def)
  next
    case (Some s)
    with n obtain item where s: "s = Single item"
      by (cases s) (auto simp: holds_list_def)
    with Some have f: "field_value e (desc t) = Some (item_value item)"
      by (simp add: field_value_def)
    show ?thesis
      using Some s h
      by (simp add: ih spec_first_match_Cons f split: option.splits)
  qed
qed

lemma merge_lists_loop_spec:
  "\<forall>t \<in> set ids. hashmaps (desc t) = Some (spec_lookup base (desc t)) \<Longrightarrow>
   \<forall>e \<in> set incoming. \<forall>t \<in> set ids. \<not> holds_list e (desc t) \<Longrightarrow>
   merge_lists_loop hashmaps ids entries additional incoming
     = spec_merge_entries base ids entries additional incoming"
proof (induction incoming arbitrary: entries additional)
  case Nil
  then show ?case by simp
next
  case (Cons e es)
  then have f: "find_match hashmaps ids e = Inr (spec_first_match base ids e)"
    by (intro find_match_spec) simp_all
  from Cons have ih: "merge_lists_loop hashmaps ids xs ys es
     = spec_merge_entries base ids xs ys es" for xs ys
    by simp
  show ?case
  proof (cases "spec_first_match base ids e")
    case None
    then show ?thesis by (simp add: f ih)
  next
    case (Some i)
    obtain r exc where m: "merge (entries ! i) e = (r, exc)" by (cases "merge (entries ! i) e")
    show ?thesis
      by (cases exc) (simp_all add: f ih Some m)
  qed
qed

text \<open>
  Claim C1. In \<^verbatim>\<open>merge_lists\<close> the identifiers are the data types of the registry whose
  token is of Unique kind, in the order of the registry: \<open>ABSOLUTE_FILE\<close>,
  \<open>RELATIVE_FILE\<close>, \<open>IMAGE_NAME\<close>, \<open>IMAGE_ID\<close>. The dictionary built for an identifier is
  the lookup of the specification over the entries of \<open>base\<close> alone: a value is mapped to
  the last entry of \<open>base\<close> that holds it under the identifier's label. And the result is
  the one of the algorithm of the specification: each incoming entry, in order, is merged
  into the entry found under the first identifier whose value for the entry is in that
  identifier's lookup, and the entries that match nothing are appended in their order. The
  fields under the four labels are taken to hold one item each.
\<close>

theorem merge_lists_algorithm:
  assumes "list_all identity_fields_single base" and "list_all identity_fields_single incoming"
  shows "unique_identifiers = filter (\<lambda>t. isinstance_UniqueToken (token_type t)) DataTypes
     \<and> unique_identifiers = [ABSOLUTE_FILE, RELATIVE_FILE, IMAGE_NAME, IMAGE_ID]
     \<and> (\<exists>hashmaps. build_hashmaps unique_identifiers base Map.empty = Inr hashmaps
          \<and> (\<forall>t \<in> set unique_identifiers. hashmaps (desc t) = Some (spec_lookup base (desc t))))
     \<and> (\<forall>d v i. spec_lookup base d v = Some i \<longleftrightarrow>
          i < length base \<and> field_value (base ! i) d = Some v
          \<and> (\<forall>j. i < j \<and> j < length base \<longrightarrow> field_value (base ! j) d \<noteq> Some v))
     \<and> merge_lists base incoming = merge_entry_lists base incoming"
proof -
  let ?h = "fold (\<lambda>t h. h(desc t \<mapsto> spec_lookup base (desc t))) unique_identifiers Map.empty"
  from assms(1) have b: "\<forall>t \<in> set unique_identifiers. list_all (\<lambda>e. \<not> holds_list e (desc t)) base"
    by (auto simp: identity_fields_single_def list_all_iff)
  from assms(2) have i: "\<forall>e \<in> set incoming. \<forall>t \<in> set unique_identifiers. \<not> holds_list e (desc t)"
    by (auto simp: identity_fields_single_def list_all_iff)
  have bh: "build_hashmaps unique_identifiers base Map.empty = Inr ?h"
    using b by (rule build_hashmaps_spec)
  have hl: "\<forall>t \<in> set unique_identifiers. ?h (desc t) = Some (spec_lookup base (desc t))"
    by (simp add: fold_hashmaps_get)
  have ml: "merge_lists base incoming = merge_entry_lists base incoming"
  proof -
    have "merge_lists base incoming = merge_lists_loop ?h unique_identifiers base [] incoming"
      by (simp only: merge_lists_def bh sum.case)
    also have "\<dots> = spec_merge_entries base unique_identifiers base [] incoming"
      using hl i by (rule merge_lists_loop_spec)
    also have "\<dots> = merge_entry_lists base incoming"
      by (simp only: merge_entry_lists_def unique_identifiers_def)
    finally show ?thesis .
  qed
  have ui: "unique_identifiers = filter (\<lambda>t. isinstance_UniqueToken (token_type t)) DataTypes"
    by (simp add: unique_identifiers_def)
  from bh hl have ex: "\<exists>hashmaps. build_hashmaps unique_identifiers base Map.empty = Inr hashmaps
          \<and> (\<forall>t \<in> set unique_identifiers. hashmaps (desc t) = Some (spec_lookup base (desc t)))"
    by blast
  have la: "\<forall>d v i. spec_lookup base d v = Some i \<longleftrightarrow>
          i < length base \<and> field_value (base ! i) d = Some v
          \<and> (\<forall>j. i < j \<and> j < length base \<longrightarrow> field_value (base ! j) d \<noteq> Some v)"
    using spec_lookup_last [of base] by blast
  from ui unique_identifiers_list ex la ml show ?thesis by blast
qed

text \<open>
  Claim C1 on three base entries, of which the first two hold the image id 1 (the second
  wins the slot) and the third a file, and three incoming entries: the first goes to the
  second base entry by its image id, the second matches nothing and is appended, the third
  holds the image id 1 and the file and goes to the third base entry, since the file is
  looked up first.
\<close>

theorem merge_lists_algorithm_witness:
  "list_all identity_fields_single
     [DataEntry_init [image_id_1, image_name_cat], DataEntry_init [image_id_1], DataEntry_init [file_cat]]
   \<and> list_all identity_fields_single
     [DataEntry_init [image_id_1, class_cat], DataEntry_init [image_id_2],
      DataEntry_init [image_id_1, file_cat, class_dog]]
   \<and> spec_lookup
        [DataEntry_init [image_id_1, image_name_cat], DataEntry_init [image_id_1], DataEntry_init [file_cat]]
        ''IMAGE_ID'' ''1'' = Some 1
   \<and> merge_lists
        [DataEntry_init [image_id_1, image_name_cat], DataEntry_init [image_id_1], DataEntry_init [file_cat]]
        [DataEntry_init [image_id_1, class_cat], DataEntry_init [image_id_2],
         DataEntry_init [image_id_1, file_cat, class_dog]]
       = Inr [DataEntry_init [image_id_1, image_name_cat], DataEntry_init [image_id_1, class_cat],
              DataEntry_init [file_cat, image_id_1, class_dog], DataEntry_init [image_id_2]]
   \<and> merge_entry_lists
        [DataEntry_init [image_id_1, image_name_cat], DataEntry_init [image_id_1], DataEntry_init [file_cat]]
        [DataEntry_init [image_id_1, class_cat], DataEntry_init [image_id_2],
         DataEntry_init [image_id_1, file_cat, class_dog]]
       = Inr [DataEntry_init [image_id_1, image_name_cat], DataEntry_init [image_id_1, class_cat],
              DataEntry_init [file_cat, image_id_1, class_dog], DataEntry_init [image_id_2]]"
proof -
  let ?base = "[DataEntry_init [image_id_1, image_name_cat], DataEntry_init [image_id_1],
                DataEntry_init [file_cat]]"
  let ?incoming = "[DataEntry_init [image_id_1, class_cat], DataEntry_init [image_id_2],
                    DataEntry_init [image_id_1, file_cat, class_dog]]"
  have b: "list_all identity_fields_single ?base"
    by (simp add: identity_fields_single_def holds_list_def unique_identifiers_list
        DataEntry_init_def dict_get_def example_defs)
  have i: "list_all identity_fields_single ?incoming"
    by (simp add: identity_fields_single_def holds_list_def unique_identifiers_list
        DataEntry_init_def dict_get_def example_defs)
  have l: "spec_lookup ?base ''IMAGE_ID'' ''1'' = Some 1"
    by (simp add: spec_lookup_def field_value_def DataEntry_init_def dict_get_def example_defs)
  have m: "merge_lists ?base ?incoming
       = Inr [DataEntry_init [image_id_1, image_name_cat], DataEntry_init [image_id_1, class_cat],
              DataEntry_init [file_cat, image_id_1, class_dog], DataEntry_init [image_id_2]]"
    by (simp add: merge_lists_def unique_identifiers_list merge_def DataEntry_init_def
        dict_get_def DataItem_eq_def DataType_eq_def example_defs)
  from merge_lists_algorithm [OF b i]
  have e: "merge_lists ?base ?incoming = merge_entry_lists ?base ?incoming" by blast
  show ?thesis
    using b i l m e by simp
qed

end
